theory Spec2Isabelle
  imports Main "HOL-Library.Word" "HOL-Library.AList"
begin

section \<open>Value types shared by the atomic transactions and the blocks\<close>

text \<open>
  \<open>ids.ID\<close> is a 32-byte array (block ids, UTXO ids, asset ids, chain ids),
  \<open>common.Address\<close> a 20-byte array, amounts and nonces are \<open>uint64\<close>,
  network ids \<open>uint32\<close>, balances and block numbers are \<open>big.Int\<close>.
\<close>

type_synonym byte = "8 word"
type_synonym ID = "256 word"
type_synonym address = "160 word"
type_synonym uint64 = "64 word"
type_synonym uint32 = "32 word"

text \<open>
  The package's sentinel errors. \<open>ErrExternal\<close> stands for an error value made
  by an external collaborator (database, shared memory, EVM chain, credential and
  signature primitives); \<open>ErrWrapped\<close> is \<open>fmt.Errorf\<close> with \<open>%w\<close>: a new error
  value that carries a prefix and the wrapped error.
\<close>

datatype error =
    ErrNilTx
  | ErrWrongChainID
  | ErrNoExportOutputs
  | ErrWrongNetworkID
  | ErrWrongBlockchainID
  | ErrOutputsNotSorted
  | ErrPublicKeySignatureMismatch
  | ErrInsufficientFunds
  | ErrInvalidNonce
  | ErrInsufficientGasPrice
  | ErrAtomicInputConflict
  | ErrUnknownAtomicTxType
  | ErrOverflowExport
  | ErrExternal string
  | ErrWrapped string error

section \<open>Export transactions\<close>

record EVMInput =
  Address :: address
  Amount :: uint64
  AssetID :: ID
  Nonce :: uint64

text \<open>
  Modelled from the spec: \<open>state.StateDB\<close> (coreth's \<open>core/state\<close>, not among the
  sources). The spec's section 4.2 speaks of the base balance, the multi-coin
  sub-balance per asset id and the account nonce of an address; balances are
  \<open>big.Int\<close>, the nonce is \<open>uint64\<close>. An account never touched reads as zero.
\<close>

record StateDB =
  balance :: "address \<Rightarrow> int"
  balanceMultiCoin :: "address \<Rightarrow> ID \<Rightarrow> int"
  nonce :: "address \<Rightarrow> uint64"

definition GetBalance :: "StateDB \<Rightarrow> address \<Rightarrow> int" where
  "GetBalance st a = balance st a"

definition SubBalance :: "StateDB \<Rightarrow> address \<Rightarrow> int \<Rightarrow> StateDB" where
  "SubBalance st a amount = st\<lparr>balance := (balance st)(a := balance st a - amount)\<rparr>"

definition GetBalanceMultiCoin :: "StateDB \<Rightarrow> address \<Rightarrow> ID \<Rightarrow> int" where
  "GetBalanceMultiCoin st a coin = balanceMultiCoin st a coin"

definition SubBalanceMultiCoin :: "StateDB \<Rightarrow> address \<Rightarrow> ID \<Rightarrow> int \<Rightarrow> StateDB" where
  "SubBalanceMultiCoin st a coin amount =
     st\<lparr>balanceMultiCoin :=
          (balanceMultiCoin st)(a := (balanceMultiCoin st a)(coin := balanceMultiCoin st a coin - amount))\<rparr>"

definition GetNonce :: "StateDB \<Rightarrow> address \<Rightarrow> uint64" where
  "GetNonce st a = nonce st a"

definition SetNonce :: "StateDB \<Rightarrow> address \<Rightarrow> uint64 \<Rightarrow> StateDB" where
  "SetNonce st a n = st\<lparr>nonce := (nonce st)(a := n)\<rparr>"

text \<open>
  The body of the loop of \<open>UnsignedExportTx.EVMStateTransfer\<close> for one input
  \<open>from\<close>. The Go code mutates the state in place, so an error leaves the state as
  it is at the \<open>return\<close>: the result is the error (if any) and that state.
  \<open>x2cRate\<close> (a \<open>big.Int\<close> constant declared outside the sources) and the native
  asset id \<open>vm.ctx.AVAXAssetID\<close> are parameters. The product is a \<open>big.Int\<close>:
  \<open>uint\<close> reads the 64-bit amount as an unbounded integer.
\<close>

definition transferInput :: "int \<Rightarrow> ID \<Rightarrow> EVMInput \<Rightarrow> StateDB \<Rightarrow> error option \<times> StateDB" where
  "transferInput x2cRate avaxAssetID from st =
     (let amount = uint (Amount from) * x2cRate in
      if AssetID from = avaxAssetID then
        (if GetBalance st (Address from) < amount then (Some ErrInsufficientFunds, st)
         else
           (let st1 = SubBalance st (Address from) amount in
            if GetNonce st1 (Address from) \<noteq> Nonce from then (Some ErrInvalidNonce, st1)
            else (None, SetNonce st1 (Address from) (Nonce from + 1))))
      else
        (let assetID = AssetID from in
         if GetBalanceMultiCoin st (Address from) assetID < amount then (Some ErrInsufficientFunds, st)
         else
           (let st1 = SubBalanceMultiCoin st (Address from) assetID amount in
            if GetNonce st1 (Address from) \<noteq> Nonce from then (Some ErrInvalidNonce, st1)
            else (None, SetNonce st1 (Address from) (Nonce from + 1)))))"

text \<open>The \<open>for _, from := range tx.Ins\<close> loop: the first error returns.\<close>

fun transferInputs :: "int \<Rightarrow> ID \<Rightarrow> EVMInput list \<Rightarrow> StateDB \<Rightarrow> error option \<times> StateDB" where
  "transferInputs x2cRate avaxAssetID [] st = (None, st)"
| "transferInputs x2cRate avaxAssetID (from # ins) st =
     (case transferInput x2cRate avaxAssetID from st of
        (Some e, st') \<Rightarrow> (Some e, st')
      | (None, st') \<Rightarrow> transferInputs x2cRate avaxAssetID ins st')"

section \<open>External collaborators of the export transaction\<close>

text \<open>A Go call either returns or panics at run time (a failed type assertion, an
  index out of range).\<close>

datatype 'a go = Return 'a | Panic

text \<open>\<open>permError{err}\<close> and \<open>tempError{err}\<close>, the two \<open>TxError\<close> wrappers.\<close>

datatype TxError = permError error | tempError error

text \<open>\<open>avax.TransferableOutput\<close> holding a \<open>secp256k1fx.TransferOutput\<close>, the
  shape \<open>newExportTx\<close> builds.\<close>

record TransferableOutput =
  Asset :: ID
  Amt :: uint64
  Locktime :: uint64
  Threshold :: uint32
  Addrs :: "address list"

text \<open>A credential of the signed wrapper: \<open>*secp256k1fx.Credential\<close> with its
  \<open>Sigs\<close> (65-byte signatures), or a \<open>verify.Verifiable\<close> of another type.\<close>

datatype Credential = Secp256k1Credential "byte list list" | OtherCredential

text \<open>
  What the export transaction calls outside the sources, taken as parameters:
  \<open>EVMInput.Verify\<close>, \<open>TransferableOutput.Verify\<close>,
  \<open>avax.IsSortedTransferableOutputs\<close> with the package's \<open>Codec\<close>,
  \<open>Credential.Verify\<close>, \<open>FactorySECP256K1R.RecoverPublicKey\<close>,
  \<open>PublicKeyToEthAddress\<close>, \<open>Codec.Marshal\<close> of a UTXO, \<open>UTXO.InputID\<close>,
  \<open>SharedMemory.Put\<close>, \<open>VM.GetSpendableCanonical\<close> and \<open>Tx.Sign\<close>.
\<close>

record Externals =
  in_Verify :: "EVMInput \<Rightarrow> error option"
  out_Verify :: "TransferableOutput \<Rightarrow> error option"
  IsSortedTransferableOutputs :: "TransferableOutput list \<Rightarrow> bool"
  cred_Verify :: "Credential \<Rightarrow> error option"
  RecoverPublicKey :: "byte list \<Rightarrow> byte list \<Rightarrow> error + byte list"
  PublicKeyToEthAddress :: "byte list \<Rightarrow> address"
  Marshal :: "ID \<times> uint32 \<times> TransferableOutput \<Rightarrow> error + byte list"
  InputID :: "ID \<Rightarrow> uint32 \<Rightarrow> ID"
  SharedMemory_Put :: "ID \<Rightarrow> (ID \<times> byte list \<times> address list) list \<Rightarrow> error option"
  GetSpendableCanonical :: "byte list list \<Rightarrow> ID \<Rightarrow> uint64 \<Rightarrow> error + (EVMInput list \<times> byte list list list)"
  Sign :: "ID \<times> uint64 \<times> ID \<times> address \<times> EVMInput list \<Rightarrow> byte list list list \<Rightarrow>
           error + (byte list \<times> ID \<times> Credential list)"

text \<open>\<open>snow.Context\<close>, the fields the sources read.\<close>

record Context =
  ctx_NetworkID :: uint32
  ctx_ChainID :: ID
  ctx_XChainID :: ID
  ctx_AVAXAssetID :: ID
  ctx_IsBootstrapped :: bool

text \<open>\<open>UnsignedExportTx\<close> with the two fields of the embedded \<open>avax.Metadata\<close>
  the sources read: the cached unsigned bytes and the transaction id.\<close>

record UnsignedExportTx =
  txID :: ID
  unsignedBytes :: "byte list"
  syntacticallyVerified :: bool
  NetworkID :: uint32
  BlockchainID :: ID
  DestinationChain :: ID
  Ins :: "EVMInput list"
  ExportedOutputs :: "TransferableOutput list"

text \<open>\<open>InputUTXOs returns an empty set\<close>.\<close>

definition ExportTx_InputUTXOs :: "UnsignedExportTx \<Rightarrow> ID set" where
  "ExportTx_InputUTXOs tx = {}"

text \<open>A loop \<open>for _, x := range xs\<close> that returns the first \<open>x.Verify()\<close> that is
  not \<open>nil\<close>: the error of the first element that has one.\<close>

fun firstError :: "('a \<Rightarrow> error option) \<Rightarrow> 'a list \<Rightarrow> error option" where
  "firstError f [] = None"
| "firstError f (x # xs) = (case f x of Some e \<Rightarrow> Some e | None \<Rightarrow> firstError f xs)"

text \<open>
  \<open>UnsignedExportTx.Verify\<close>. The receiver is a pointer, \<open>None\<close> is \<open>nil\<close>. The cases
  of the \<open>switch\<close> are tried in the order written; \<open>IsZero\<close> holds of the id
  whose bytes are all zero. A success sets \<open>syntacticallyVerified\<close>: the result
  is the error, or the transaction as the call leaves it. The fee arguments are
  not read by the body.
\<close>

definition ExportTx_Verify ::
  "Externals \<Rightarrow> ID \<Rightarrow> Context \<Rightarrow> uint64 \<Rightarrow> ID \<Rightarrow> UnsignedExportTx option \<Rightarrow> error + UnsignedExportTx" where
  "ExportTx_Verify ext avmID ctx feeAmount feeAssetID txo =
     (case txo of
        None \<Rightarrow> Inl ErrNilTx
      | Some tx \<Rightarrow>
          if syntacticallyVerified tx then Inr tx
          else if DestinationChain tx = 0 then Inl ErrWrongChainID
          else if DestinationChain tx \<noteq> avmID then Inl ErrWrongChainID
          else if length (ExportedOutputs tx) = 0 then Inl ErrNoExportOutputs
          else if NetworkID tx \<noteq> ctx_NetworkID ctx then Inl ErrWrongNetworkID
          else if ctx_ChainID ctx \<noteq> BlockchainID tx then Inl ErrWrongBlockchainID
          else
            (case firstError (in_Verify ext) (Ins tx) of
               Some e \<Rightarrow> Inl e
             | None \<Rightarrow>
                 (case firstError (out_Verify ext) (ExportedOutputs tx) of
                    Some e \<Rightarrow> Inl e
                  | None \<Rightarrow>
                      if \<not> IsSortedTransferableOutputs ext (ExportedOutputs tx)
                      then Inl ErrOutputsNotSorted
                      else Inr (tx\<lparr>syntacticallyVerified := True\<rparr>))))"

text \<open>
  The credential loop of \<open>SemanticVerify\<close>, \<open>for i, cred := range stx.Creds\<close>, from
  index \<open>i\<close> on. The type assertion to \<open>*secp256k1fx.Credential\<close>, \<open>Sigs[0]\<close> and
  \<open>tx.Ins[i]\<close> panic when they fail; nothing compares the number of credentials
  with the number of inputs.
\<close>

fun verifyCreds :: "Externals \<Rightarrow> UnsignedExportTx \<Rightarrow> nat \<Rightarrow> Credential list \<Rightarrow> TxError option go" where
  "verifyCreds ext tx i [] = Return None"
| "verifyCreds ext tx i (cred # creds) =
     (case cred_Verify ext cred of
        Some e \<Rightarrow> Return (Some (permError e))
      | None \<Rightarrow>
          (case cred of
             OtherCredential \<Rightarrow> Panic
           | Secp256k1Credential sigs \<Rightarrow>
               (case sigs of
                  [] \<Rightarrow> Panic
                | sig0 # _ \<Rightarrow>
                    (case RecoverPublicKey ext (unsignedBytes tx) sig0 of
                       Inl e \<Rightarrow> Return (Some (permError e))
                     | Inr pubKey \<Rightarrow>
                         if length (Ins tx) \<le> i then Panic
                         else if Address (Ins tx ! i) \<noteq> PublicKeyToEthAddress ext pubKey
                         then Return (Some (permError ErrPublicKeySignatureMismatch))
                         else verifyCreds ext tx (Suc i) creds))))"

subsection \<open>The flow checker\<close>

text \<open>
  \<open>safemath.Add64\<close> and \<open>avax.FlowChecker\<close> belong to the host library. \<open>Add64\<close>
  fails when the sum leaves 64 bits. The flow checker keeps two maps from asset id
  to \<open>uint64\<close> and the first error seen; \<open>Verify\<close> reports the library's own
  insufficient-funds error when some asset is produced in a larger amount than it
  is consumed.
\<close>

definition Add64 :: "uint64 \<Rightarrow> uint64 \<Rightarrow> error + uint64" where
  "Add64 a b = (if a > (- 1) - b then Inl (ErrExternal ''overflow'') else Inr (a + b))"

record FlowChecker =
  consumed :: "(ID \<times> uint64) list"
  produced :: "(ID \<times> uint64) list"
  errs :: "error option"

definition NewFlowChecker :: FlowChecker where
  "NewFlowChecker = \<lparr>consumed = [], produced = [], errs = None\<rparr>"

definition amountOf :: "(ID \<times> uint64) list \<Rightarrow> ID \<Rightarrow> uint64" where
  "amountOf m k = (case map_of m k of None \<Rightarrow> 0 | Some v \<Rightarrow> v)"

definition errsAdd :: "error option \<Rightarrow> error option \<Rightarrow> error option" where
  "errsAdd es e = (case es of None \<Rightarrow> e | Some e0 \<Rightarrow> Some e0)"

definition Consume :: "ID \<Rightarrow> uint64 \<Rightarrow> FlowChecker \<Rightarrow> FlowChecker" where
  "Consume assetID amount fc =
     (case Add64 (amountOf (consumed fc) assetID) amount of
        Inl e \<Rightarrow> fc\<lparr>consumed := AList.update assetID 0 (consumed fc), errs := errsAdd (errs fc) (Some e)\<rparr>
      | Inr v \<Rightarrow> fc\<lparr>consumed := AList.update assetID v (consumed fc)\<rparr>)"

definition Produce :: "ID \<Rightarrow> uint64 \<Rightarrow> FlowChecker \<Rightarrow> FlowChecker" where
  "Produce assetID amount fc =
     (case Add64 (amountOf (produced fc) assetID) amount of
        Inl e \<Rightarrow> fc\<lparr>produced := AList.update assetID 0 (produced fc), errs := errsAdd (errs fc) (Some e)\<rparr>
      | Inr v \<Rightarrow> fc\<lparr>produced := AList.update assetID v (produced fc)\<rparr>)"

definition FlowChecker_Verify :: "FlowChecker \<Rightarrow> error option" where
  "FlowChecker_Verify fc =
     (case errs fc of
        Some e \<Rightarrow> Some e
      | None \<Rightarrow>
          if list_ex (\<lambda>(assetID, producedAssetAmount). producedAssetAmount > amountOf (consumed fc) assetID)
               (produced fc)
          then Some (ErrExternal ''insufficient funds'') else None)"

section \<open>Transactions, blocks and the VM\<close>

text \<open>
  Modelled from the spec: \<open>UnsignedImportTx\<close> (its file is not among the sources).
  Section 4.2: \<open>InputUTXOs\<close> of an ImportTx returns the ids of its ImportedInputs;
  the record holds the input id of each imported input, in order.
\<close>

record UnsignedImportTx =
  ImportedInputs :: "ID list"

definition ImportTx_InputUTXOs :: "UnsignedImportTx \<Rightarrow> ID set" where
  "ImportTx_InputUTXOs tx = set (ImportedInputs tx)"

text \<open>The dynamic type behind the interface value \<open>tx.UnsignedTx\<close>: one of the two
  atomic transactions, or a type that is neither (the \<open>default\<close> case of the type
  switch in \<open>Block.Verify\<close>, the failed assertion in \<open>Block.Accept\<close>).\<close>

datatype UnsignedTx = ImportTx UnsignedImportTx | ExportTx UnsignedExportTx | OtherTx

record Tx =
  UnsignedTx :: UnsignedTx
  Creds :: "Credential list"

text \<open>\<open>InputUTXOs\<close> through the interface \<open>UnsignedAtomicTx\<close>; the type assertion
  \<open>.(UnsignedAtomicTx)\<close> fails for a type that does not implement it.\<close>

definition InputUTXOs :: "UnsignedTx \<Rightarrow> ID set go" where
  "InputUTXOs utx =
     (case utx of
        ImportTx itx \<Rightarrow> Return (ImportTx_InputUTXOs itx)
      | ExportTx etx \<Rightarrow> Return (ExportTx_InputUTXOs etx)
      | OtherTx \<Rightarrow> Panic)"

text \<open>
  \<open>types.Block\<close> as the sources read it: hash, parent hash, number (a \<open>big.Int\<close>),
  the gas price of each ordinary transaction, and the atomic transaction decoded
  from the block's extra data (\<open>None\<close> when there is none).
\<close>

record EthBlock =
  Hash :: ID
  ParentHash :: ID
  Number :: int
  Transactions :: "int list"
  ExtData :: "Tx option"

text \<open>\<open>Block\<close>: the id and the EVM block; the \<open>vm\<close> pointer is the VM state that
  every function below takes. A \<open>Block\<close> of the model always has its \<open>ethBlock\<close>.\<close>

record Block =
  id :: ID
  ethBlock :: EthBlock

text \<open>\<open>snowman.Block\<close>, the interface \<open>Parent\<close> returns: a \<open>*Block\<close> or the
  \<open>*missing.Block\<close> sentinel that only knows its id.\<close>

datatype SnowmanBlock = EVMBlock Block | MissingBlock ID

datatype Status = Unknown | Processing | Accepted | Rejected

text \<open>
  The ancestor-input cache is a bounded LRU of the host library holding
  \<open>*ids.Set\<close> pointers. \<open>entries\<close> lists key and pointer from the least to the most
  recently used; \<open>Size\<close> is the Go \<open>int\<close> field. Every operation first repairs a
  non-positive size to 1 and drops the oldest entries beyond the size.
\<close>

record LRU =
  Size :: int
  entries :: "(ID \<times> nat) list"

definition lru_resize :: "LRU \<Rightarrow> LRU" where
  "lru_resize c =
     (let s = (if Size c \<le> 0 then 1 else Size c)
      in \<lparr>Size = s, entries = drop (length (entries c) - nat s) (entries c)\<rparr>)"

definition lru_Get :: "LRU \<Rightarrow> ID \<Rightarrow> nat option \<times> LRU" where
  "lru_Get c0 key =
     (let c = lru_resize c0 in
      case map_of (entries c) key of
        None \<Rightarrow> (None, c)
      | Some v \<Rightarrow> (Some v, c\<lparr>entries := filter (\<lambda>e. fst e \<noteq> key) (entries c) @ [(key, v)]\<rparr>))"

definition lru_Put :: "LRU \<Rightarrow> ID \<Rightarrow> nat \<Rightarrow> LRU" where
  "lru_Put c0 key v =
     (let c = lru_resize c0 in
      case map_of (entries c) key of
        None \<Rightarrow>
          if int (length (entries c)) \<ge> Size c
          then c\<lparr>entries := tl (entries c) @ [(key, v)]\<rparr>
          else c\<lparr>entries := entries c @ [(key, v)]\<rparr>
      | Some _ \<Rightarrow> c\<lparr>entries := filter (\<lambda>e. fst e \<noteq> key) (entries c) @ [(key, v)]\<rparr>)"

text \<open>
  The VM state the sources read and write. \<open>setHeap\<close> is the store of the
  \<open>ids.Set\<close> objects reached through pointers: a pointer is an index into it.
  The remaining function fields are the collaborators outside the sources:
  the EVM chain (\<open>BlockState\<close>, \<open>Process\<close>, \<open>InsertChain\<close>), the failure of the
  acceptance database's \<open>Put\<close>, and the import transaction's \<open>SemanticVerify\<close> and
  \<open>Accept\<close>. \<open>x2cRate\<close> and \<open>MinGasPrice\<close> are package constants declared outside
  the sources.
\<close>

record VM =
  ctx :: Context
  ext :: Externals
  txFee :: uint64
  x2cRate :: int
  MinGasPrice :: int
  genesisHash :: ID
  blocks :: "ID \<rightharpoonup> Block"
  blockStatusCache :: "ID \<rightharpoonup> Status"
  blockAtomicInputCache :: LRU
  setHeap :: "ID set list"
  acceptedDB :: "byte list \<rightharpoonup> byte list"
  acceptedDB_PutError :: "byte list \<Rightarrow> byte list \<Rightarrow> error option"
  BlockState :: "EthBlock \<Rightarrow> error option"
  Process :: "EthBlock \<Rightarrow> error option"
  InsertChain :: "EthBlock \<Rightarrow> error option"
  ImportTx_SemanticVerify :: "UnsignedImportTx \<Rightarrow> Tx \<Rightarrow> TxError option go"
  ImportTx_Accept :: "UnsignedImportTx \<Rightarrow> error option"

subsection \<open>The rest of the export transaction\<close>

text \<open>\<open>SemanticVerify\<close>: syntactic verification, the credential loop, the flow
  check. The value returned is the \<open>TxError\<close> (\<open>None\<close> for \<open>nil\<close>).\<close>

definition ExportTx_SemanticVerify :: "VM \<Rightarrow> UnsignedExportTx option \<Rightarrow> Tx \<Rightarrow> TxError option go" where
  "ExportTx_SemanticVerify vm txo stx =
     (case ExportTx_Verify (ext vm) (ctx_XChainID (ctx vm)) (ctx vm) (txFee vm) (ctx_AVAXAssetID (ctx vm)) txo of
        Inl e \<Rightarrow> Return (Some (permError e))
      | Inr tx \<Rightarrow>
          (case verifyCreds (ext vm) tx 0 (Creds stx) of
             Panic \<Rightarrow> Panic
           | Return (Some e) \<Rightarrow> Return (Some e)
           | Return None \<Rightarrow>
               (let fc0 = Produce (ctx_AVAXAssetID (ctx vm)) (txFee vm) NewFlowChecker;
                    fc1 = fold (\<lambda>out. Produce (Asset out) (Amt out)) (ExportedOutputs tx) fc0;
                    fc2 = fold (\<lambda>i. Consume (AssetID i) (Amount i)) (Ins tx) fc1
                in case FlowChecker_Verify fc2 of
                     Some e \<Rightarrow> Return (Some (permError e))
                   | None \<Rightarrow> Return None)))"

text \<open>\<open>Accept\<close>: one shared-memory element per exported output (key: the UTXO's
  input id, value: the marshalled UTXO, traits: the owner addresses), then one
  \<open>SharedMemory.Put\<close> to the destination chain.\<close>

fun exportElems ::
  "Externals \<Rightarrow> ID \<Rightarrow> nat \<Rightarrow> TransferableOutput list \<Rightarrow> error + (ID \<times> byte list \<times> address list) list" where
  "exportElems ex t i [] = Inr []"
| "exportElems ex t i (out # outs) =
     (case Marshal ex (t, word_of_nat i, out) of
        Inl e \<Rightarrow> Inl e
      | Inr utxoBytes \<Rightarrow>
          (case exportElems ex t (Suc i) outs of
             Inl e \<Rightarrow> Inl e
           | Inr elems \<Rightarrow> Inr ((InputID ex t (word_of_nat i), utxoBytes, Addrs out) # elems)))"

definition ExportTx_Accept :: "Externals \<Rightarrow> UnsignedExportTx \<Rightarrow> error option" where
  "ExportTx_Accept ex tx =
     (case exportElems ex (txID tx) 0 (ExportedOutputs tx) of
        Inl e \<Rightarrow> Some e
      | Inr elems \<Rightarrow> SharedMemory_Put ex (DestinationChain tx) elems)"

text \<open>\<open>EVMStateTransfer\<close>: the loop over \<open>tx.Ins\<close>.\<close>

definition ExportTx_EVMStateTransfer :: "VM \<Rightarrow> UnsignedExportTx \<Rightarrow> StateDB \<Rightarrow> error option \<times> StateDB" where
  "ExportTx_EVMStateTransfer vm tx st =
     transferInputs (x2cRate vm) (ctx_AVAXAssetID (ctx vm)) (Ins tx) st"


section \<open>Blocks\<close>

text \<open>
  Modelled from the spec: \<open>VM.getBlock\<close>, \<open>VM.getAtomicTx\<close>, \<open>VM.updateStatus\<close> and
  \<open>VM.getCachedStatus\<close> (the VM's file is not among the sources). Section 9: the
  blocks are an \<open>id \<rightarrow> Block\<close> map and \<open>Parent\<close> is a lookup in it. Section 6: the
  atomic transaction, when present, is embedded in the EVM block's extra data.
  Section 3: the status cache maps a block id to a status; a block without a
  cached decision has status Unknown there.
\<close>

definition getBlock :: "VM \<Rightarrow> ID \<Rightarrow> Block option" where
  "getBlock vm blkID = blocks vm blkID"

definition getAtomicTx :: "VM \<Rightarrow> EthBlock \<Rightarrow> Tx option" where
  "getAtomicTx vm blk = ExtData blk"

definition updateStatus :: "VM \<Rightarrow> ID \<Rightarrow> Status \<Rightarrow> VM" where
  "updateStatus vm blkID status = vm\<lparr>blockStatusCache := (blockStatusCache vm)(blkID \<mapsto> status)\<rparr>"

definition getCachedStatus :: "VM \<Rightarrow> ID \<Rightarrow> Status" where
  "getCachedStatus vm blkID = (case blockStatusCache vm blkID of None \<Rightarrow> Unknown | Some s \<Rightarrow> s)"

text \<open>
  Modelled from the spec: \<open>database.Database.Put\<close> on the acceptance index
  (section 3: a mapping from key bytes to value bytes). A failing \<open>Put\<close> returns
  its error and stores nothing.
\<close>

definition acceptedDB_Put :: "VM \<Rightarrow> byte list \<Rightarrow> byte list \<Rightarrow> error option \<times> VM" where
  "acceptedDB_Put vm k v =
     (case acceptedDB_PutError vm k v of
        Some e \<Rightarrow> (Some e, vm)
      | None \<Rightarrow> (None, vm\<lparr>acceptedDB := (acceptedDB vm)(k \<mapsto> v)\<rparr>))"

text \<open>\<open>big.Int.Bytes\<close>: the absolute value as a big-endian byte string without
  leading zero bytes (empty for zero).\<close>

fun natBytes :: "nat \<Rightarrow> byte list" where
  "natBytes n = (if n = 0 then [] else natBytes (n div 256) @ [word_of_nat (n mod 256)])"

declare natBytes.simps [simp del]

definition bigBytes :: "int \<Rightarrow> byte list" where
  "bigBytes x = natBytes (nat \<bar>x\<bar>)"

text \<open>\<open>b.id[:]\<close>: the 32 bytes of the id, first byte first.\<close>

definition idBytes :: "ID \<Rightarrow> byte list" where
  "idBytes x = map (\<lambda>i. ucast (drop_bit (8 * (31 - i)) x)) [0..<32]"

text \<open>\<open>big.Int.Uint64\<close>: the low 64 bits of the absolute value.\<close>

definition Height :: "Block \<Rightarrow> uint64" where
  "Height b = word_of_nat (nat \<bar>Number (ethBlock b)\<bar>)"

text \<open>\<open>Block.Status\<close>; the test \<open>b.ethBlock != nil\<close> is true of every \<open>Block\<close> of the
  model. \<open>missing.Block.Status\<close> is Unknown.\<close>

definition Block_Status :: "VM \<Rightarrow> Block \<Rightarrow> Status" where
  "Block_Status vm b =
     (let status = getCachedStatus vm (id b) in
      if status = Unknown \<and> True then Processing else status)"

definition Status :: "VM \<Rightarrow> SnowmanBlock \<Rightarrow> Status" where
  "Status vm p = (case p of EVMBlock b \<Rightarrow> Block_Status vm b | MissingBlock _ \<Rightarrow> Unknown)"

definition Parent :: "VM \<Rightarrow> Block \<Rightarrow> SnowmanBlock" where
  "Parent vm b =
     (let parentID = ParentHash (ethBlock b) in
      case getBlock vm parentID of
        Some block \<Rightarrow> EVMBlock block
      | None \<Rightarrow> MissingBlock parentID)"

text \<open>The type assertion \<open>.(*Block)\<close>.\<close>

definition asBlock :: "SnowmanBlock \<Rightarrow> Block go" where
  "asBlock p = (case p of EVMBlock b \<Rightarrow> Return b | MissingBlock _ \<Rightarrow> Panic)"

text \<open>
  \<open>Block.Accept\<close>: the status first, then the acceptance index, then the atomic
  transaction's shared-memory side. The result is the error returned and the VM
  state the call leaves.
\<close>

definition Block_Accept :: "VM \<Rightarrow> Block \<Rightarrow> error option \<times> VM" where
  "Block_Accept vm0 b =
     (let vm1 = updateStatus vm0 (id b) Accepted in
      case acceptedDB_Put vm1 (bigBytes (Number (ethBlock b))) (idBytes (id b)) of
        (Some err, vm2) \<Rightarrow> (Some err, vm2)
      | (None, vm2) \<Rightarrow>
          (case getAtomicTx vm2 (ethBlock b) of
             None \<Rightarrow> (None, vm2)
           | Some tx \<Rightarrow>
               (case UnsignedTx tx of
                  OtherTx \<Rightarrow> (Some ErrUnknownAtomicTxType, vm2)
                | ImportTx itx \<Rightarrow> (ImportTx_Accept vm2 itx, vm2)
                | ExportTx etx \<Rightarrow> (ExportTx_Accept (ext vm2) etx, vm2))))"

subsection \<open>The conflict scan of Verify\<close>

text \<open>\<open>new(ids.Set)\<close> and \<open>Union\<close> through a pointer.\<close>

definition newSet :: "VM \<Rightarrow> nat \<times> VM" where
  "newSet vm = (length (setHeap vm), vm\<lparr>setHeap := setHeap vm @ [{}]\<rparr>)"

definition setUnion :: "VM \<Rightarrow> nat \<Rightarrow> ID set \<Rightarrow> VM" where
  "setUnion vm ptr s = vm\<lparr>setHeap := (setHeap vm)[ptr := setHeap vm ! ptr \<union> s]\<rparr>"

text \<open>
  The first loop: from \<open>p\<close> towards the ancestors until an Accepted block, the
  genesis block or a block with a resident cache entry. \<open>c\<close> is the cache as the
  \<open>Get\<close> calls leave it. The result is the pointer found in the cache (if any),
  the path walked (nearest block first) and the cache. The loop has no bound of
  its own: it ends only if the chain of parents reaches one of the three stops or
  a missing block.
\<close>

partial_function (option) walkAncestors ::
  "VM \<Rightarrow> LRU \<Rightarrow> SnowmanBlock \<Rightarrow> Block list \<Rightarrow> (nat option \<times> Block list \<times> LRU) go option" where
  "walkAncestors vm c p path =
     (if Status vm p = Accepted then Some (Return (None, path, c))
      else
        case asBlock p of
          Panic \<Rightarrow> Some Panic
        | Return pb \<Rightarrow>
            if Hash (ethBlock pb) = genesisHash vm then Some (Return (None, path, c))
            else
              (case lru_Get c (id pb) of
                 (Some ret, c') \<Rightarrow> Some (Return (Some ret, path, c'))
               | (None, c') \<Rightarrow>
                   (case asBlock (Parent vm pb) of
                      Panic \<Rightarrow> Some Panic
                    | Return q \<Rightarrow> walkAncestors vm c' (EVMBlock q) (path @ [pb]))))"

declare walkAncestors.simps [code]

text \<open>
  The second loop, \<open>for i := len(path) - 1; i >= 0; i--\<close>, over the blocks still to
  visit (farthest first). \<open>inputs\<close> is the pointer the scan accumulates into;
  \<open>inputsCopy\<close> is a fresh set for each block, filled only inside
  \<open>if atx != nil\<close>, and put into the cache under the block's id.
\<close>

fun memoizePath :: "Block list \<Rightarrow> nat \<Rightarrow> VM \<Rightarrow> VM go" where
  "memoizePath [] inputs vm = Return vm"
| "memoizePath (p # ps) inputs vm =
     (case newSet vm of
        (inputsCopy, vm1) \<Rightarrow>
          (case getAtomicTx vm1 (ethBlock p) of
             None \<Rightarrow>
               memoizePath ps inputs
                 (vm1\<lparr>blockAtomicInputCache := lru_Put (blockAtomicInputCache vm1) (id p) inputsCopy\<rparr>)
           | Some atx \<Rightarrow>
               (case InputUTXOs (UnsignedTx atx) of
                  Panic \<Rightarrow> Panic
                | Return ins \<Rightarrow>
                    (let vm2 = setUnion vm1 inputs ins;
                         vm3 = setUnion vm2 inputsCopy (setHeap vm2 ! inputs)
                     in memoizePath ps inputs
                          (vm3\<lparr>blockAtomicInputCache :=
                                 lru_Put (blockAtomicInputCache vm3) (id p) inputsCopy\<rparr>)))))"

text \<open>
  The conflict scan of the \<open>*UnsignedImportTx\<close> case for a block that is not the
  genesis block: both loops, then the test of the transaction's inputs against
  the accumulated set. The result says whether a conflict was found.
\<close>

definition conflictScan :: "VM \<Rightarrow> Block \<Rightarrow> UnsignedImportTx \<Rightarrow> (bool \<times> VM) go option" where
  "conflictScan vm b atx =
     (case newSet vm of
        (inputs0, vm1) \<Rightarrow>
          (case walkAncestors vm1 (blockAtomicInputCache vm1) (Parent vm1 b) [] of
             None \<Rightarrow> None
           | Some Panic \<Rightarrow> Some Panic
           | Some (Return (hit, path, c)) \<Rightarrow>
               (let inputs = (case hit of Some ret \<Rightarrow> ret | None \<Rightarrow> inputs0) in
                case memoizePath (rev path) inputs (vm1\<lparr>blockAtomicInputCache := c\<rparr>) of
                  Panic \<Rightarrow> Some Panic
                | Return vm2 \<Rightarrow>
                    Some (Return (ImportTx_InputUTXOs atx \<inter> setHeap vm2 ! inputs \<noteq> {}, vm2)))))"

text \<open>The end of \<open>Verify\<close> for a block with an atomic transaction: semantic
  verification, the EVM processor, and the insertion into the chain.\<close>

definition insertChain :: "VM \<Rightarrow> Block \<Rightarrow> (error option \<times> VM) go option" where
  "insertChain vm b = Some (Return (InsertChain vm (ethBlock b), vm))"

definition verifyAtomic :: "VM \<Rightarrow> Block \<Rightarrow> Tx \<Rightarrow> (error option \<times> VM) go option" where
  "verifyAtomic vm b tx =
     (case (case UnsignedTx tx of
              ImportTx itx \<Rightarrow> ImportTx_SemanticVerify vm itx tx
            | ExportTx etx \<Rightarrow> ExportTx_SemanticVerify vm (Some etx) tx
            | OtherTx \<Rightarrow> Panic) of
        Panic \<Rightarrow> Some Panic
      | Return (Some (permError e)) \<Rightarrow>
          Some (Return (Some (ErrWrapped ''block atomic transaction failed verification due to'' e), vm))
      | Return (Some (tempError e)) \<Rightarrow>
          Some (Return (Some (ErrWrapped ''block atomic transaction failed verification due to'' e), vm))
      | Return None \<Rightarrow>
          (case Process vm (ethBlock b) of
             Some e \<Rightarrow>
               Some (Return (Some (ErrWrapped ''block failed verification during EVM processing due to'' e), vm))
           | None \<Rightarrow> insertChain vm b))"

text \<open>
  \<open>Block.Verify\<close>. \<open>None\<close>: the ancestry walk never ends. Otherwise the call
  panics, or returns its error together with the VM state it leaves.
\<close>

definition Block_Verify :: "VM \<Rightarrow> Block \<Rightarrow> (error option \<times> VM) go option" where
  "Block_Verify vm b =
     (if ctx_IsBootstrapped (ctx vm) \<and> list_ex (\<lambda>gasPrice. gasPrice < MinGasPrice vm) (Transactions (ethBlock b))
      then Some (Return (Some ErrInsufficientGasPrice, vm))
      else
        case getAtomicTx vm (ethBlock b) of
          None \<Rightarrow> insertChain vm b
        | Some tx \<Rightarrow>
            (case asBlock (Parent vm b) of
               Panic \<Rightarrow> Some Panic
             | Return parent \<Rightarrow>
                 (case BlockState vm (ethBlock parent) of
                    Some err \<Rightarrow> Some (Return (Some (ErrWrapped ''failed to retrieve block state due to'' err), vm))
                  | None \<Rightarrow>
                      (case UnsignedTx tx of
                         ImportTx atx \<Rightarrow>
                           if Hash (ethBlock b) = genesisHash vm then Some (Return (None, vm))
                           else
                             (case conflictScan vm b atx of
                                None \<Rightarrow> None
                              | Some Panic \<Rightarrow> Some Panic
                              | Some (Return (True, vm')) \<Rightarrow> Some (Return (Some ErrAtomicInputConflict, vm'))
                              | Some (Return (False, vm')) \<Rightarrow> verifyAtomic vm' b tx)
                       | ExportTx _ \<Rightarrow> verifyAtomic vm b tx
                       | OtherTx \<Rightarrow> Some (Return (Some ErrUnknownAtomicTxType, vm))))))"

section \<open>Vocabulary of the properties of the export transaction\<close>

text \<open>\<open>credMatches\<close>: the public key recovered from the credential's first signature
  over the transaction's unsigned bytes maps to the address of input \<open>i\<close>.
  \<open>credMismatches\<close>: it is recovered and maps to another address.
  \<open>credRecovers\<close>: it is recovered. \<open>credsPass\<close>: every credential of a list
  verifies and matches the input at its position, counted from \<open>i\<close>.\<close>

definition credMatches :: "Externals \<Rightarrow> UnsignedExportTx \<Rightarrow> nat \<Rightarrow> Credential \<Rightarrow> bool" where
  "credMatches ex tx i cred =
     (case cred of
        Secp256k1Credential (sig0 # _) \<Rightarrow>
          (case RecoverPublicKey ex (unsignedBytes tx) sig0 of
             Inr pubKey \<Rightarrow> i < length (Ins tx) \<and> Address (Ins tx ! i) = PublicKeyToEthAddress ex pubKey
           | Inl _ \<Rightarrow> False)
      | _ \<Rightarrow> False)"

definition credMismatches :: "Externals \<Rightarrow> UnsignedExportTx \<Rightarrow> nat \<Rightarrow> Credential \<Rightarrow> bool" where
  "credMismatches ex tx i cred =
     (case cred of
        Secp256k1Credential (sig0 # _) \<Rightarrow>
          (case RecoverPublicKey ex (unsignedBytes tx) sig0 of
             Inr pubKey \<Rightarrow> i < length (Ins tx) \<and> Address (Ins tx ! i) \<noteq> PublicKeyToEthAddress ex pubKey
           | Inl _ \<Rightarrow> False)
      | _ \<Rightarrow> False)"

definition credRecovers :: "Externals \<Rightarrow> UnsignedExportTx \<Rightarrow> Credential \<Rightarrow> bool" where
  "credRecovers ex tx cred =
     (case cred of
        Secp256k1Credential (sig0 # _) \<Rightarrow>
          (case RecoverPublicKey ex (unsignedBytes tx) sig0 of Inr _ \<Rightarrow> True | Inl _ \<Rightarrow> False)
      | _ \<Rightarrow> False)"

fun credsPass :: "Externals \<Rightarrow> UnsignedExportTx \<Rightarrow> nat \<Rightarrow> Credential list \<Rightarrow> bool" where
  "credsPass ex tx i [] = True"
| "credsPass ex tx i (cred # creds) =
     (cred_Verify ex cred = None \<and> credMatches ex tx i cred \<and> credsPass ex tx (Suc i) creds)"



section \<open>A concrete VM and export transaction\<close>

text \<open>Toy collaborators: every element verifies, outputs are sorted by asset id, a
  non-empty signature recovers to itself as public key, and a public key maps to
  the address given by its first byte.\<close>

definition ex_ext :: Externals where
  "ex_ext =
     \<lparr>in_Verify = (\<lambda>_. None),
      out_Verify = (\<lambda>_. None),
      IsSortedTransferableOutputs = (\<lambda>outs. sorted (map (\<lambda>out. uint (Asset out)) outs)),
      cred_Verify = (\<lambda>_. None),
      RecoverPublicKey = (\<lambda>msg sig. if sig = [] then Inl (ErrExternal ''invalid signature'') else Inr sig),
      PublicKeyToEthAddress = (\<lambda>pubKey. case pubKey of [] \<Rightarrow> 0 | b # _ \<Rightarrow> ucast b),
      Marshal = (\<lambda>_. Inr []),
      InputID = (\<lambda>t i. t + ucast i),
      SharedMemory_Put = (\<lambda>_ _. None),
      GetSpendableCanonical = (\<lambda>_ _ _. Inr ([], [])),
      Sign = (\<lambda>_ _. Inr ([], 0, []))\<rparr>"

definition ex_ctx :: Context where
  "ex_ctx = \<lparr>ctx_NetworkID = 1, ctx_ChainID = 2, ctx_XChainID = 3, ctx_AVAXAssetID = 4,
             ctx_IsBootstrapped = True\<rparr>"

definition ex_in1 :: EVMInput where
  "ex_in1 = \<lparr>Address = 1, Amount = 2, AssetID = 4, Nonce = 0\<rparr>"

definition ex_in2 :: EVMInput where
  "ex_in2 = \<lparr>Address = 1, Amount = 3, AssetID = 9, Nonce = 1\<rparr>"

definition ex_out :: TransferableOutput where
  "ex_out = \<lparr>Asset = 9, Amt = 3, Locktime = 0, Threshold = 1, Addrs = [5]\<rparr>"

definition ex_tx :: UnsignedExportTx where
  "ex_tx = \<lparr>txID = 77, unsignedBytes = [1, 2, 3], syntacticallyVerified = False, NetworkID = 1,
            BlockchainID = 2, DestinationChain = 3, Ins = [ex_in1, ex_in2], ExportedOutputs = [ex_out]\<rparr>"

definition ex_st :: StateDB where
  "ex_st = \<lparr>balance = (\<lambda>_. 0)(1 := 5000000000),
            balanceMultiCoin = (\<lambda>_ _. 0)(1 := (\<lambda>_. 0)(9 := 3000000000)),
            nonce = (\<lambda>_. 0)\<rparr>"

definition ex_vm :: VM where
  "ex_vm =
     \<lparr>ctx = ex_ctx, ext = ex_ext, txFee = 1, x2cRate = 1000000000, MinGasPrice = 470000000000,
      genesisHash = 100, blocks = Map.empty, blockStatusCache = Map.empty,
      blockAtomicInputCache = \<lparr>Size = 8, entries = []\<rparr>, setHeap = [],
      acceptedDB = Map.empty, acceptedDB_PutError = (\<lambda>_ _. None),
      BlockState = (\<lambda>_. None), Process = (\<lambda>_. None), InsertChain = (\<lambda>_. None),
      ImportTx_SemanticVerify = (\<lambda>_ _. Return None), ImportTx_Accept = (\<lambda>_. None)\<rparr>"

definition ex_stx :: "Credential list \<Rightarrow> Tx" where
  "ex_stx creds = \<lparr>UnsignedTx = ExportTx ex_tx, Creds = creds\<rparr>"



section \<open>Vocabulary of the properties of the blocks\<close>

text \<open>
  \<open>stops\<close>: the ancestry walk ends at this block (it is Accepted, or it is the
  genesis block). \<open>chainEnd vm p path\<close>: starting at \<open>p\<close> and going from each block
  to its \<open>Parent\<close>, the blocks passed are exactly those of \<open>path\<close>, none of them a
  stop; the result is where the walk then stands. \<open>unacceptedPath vm p path\<close>:
  \<open>path\<close> lists the blocks from \<open>p\<close> back to, but not including, the most recent
  Accepted ancestor (or genesis). \<open>danglingPath\<close>: the walk through \<open>path\<close> ends
  at a block that is missing from the block map.
\<close>

definition stops :: "VM \<Rightarrow> Block \<Rightarrow> bool" where
  "stops vm b = (Block_Status vm b = Accepted \<or> Hash (ethBlock b) = genesisHash vm)"

fun chainEnd :: "VM \<Rightarrow> SnowmanBlock \<Rightarrow> Block list \<Rightarrow> SnowmanBlock option" where
  "chainEnd vm p [] = Some p"
| "chainEnd vm p (q # qs) =
     (if p = EVMBlock q \<and> \<not> stops vm q then chainEnd vm (Parent vm q) qs else None)"

definition unacceptedPath :: "VM \<Rightarrow> SnowmanBlock \<Rightarrow> Block list \<Rightarrow> bool" where
  "unacceptedPath vm p path =
     (case chainEnd vm p path of Some (EVMBlock b) \<Rightarrow> stops vm b | _ \<Rightarrow> False)"

definition danglingPath :: "VM \<Rightarrow> SnowmanBlock \<Rightarrow> Block list \<Rightarrow> bool" where
  "danglingPath vm p path =
     (case chainEnd vm p path of Some (MissingBlock _) \<Rightarrow> True | _ \<Rightarrow> False)"

text \<open>\<open>uncached\<close>: no block of the path has a resident entry in the cache.
  \<open>blockInputs\<close>: the \<open>InputUTXOs\<close> of the block's atomic transaction (empty
  without one); \<open>pathInputs\<close>: their union over a path. \<open>atomicTxKnown\<close>: the
  block's atomic transaction, if any, is an import or an export.
  \<open>cachedInputs\<close>: the set the cache holds under a block id.\<close>

definition uncached :: "LRU \<Rightarrow> Block list \<Rightarrow> bool" where
  "uncached c path = list_all (\<lambda>p. map_of (entries c) (id p) = None) path"

definition blockInputs :: "VM \<Rightarrow> Block \<Rightarrow> ID set" where
  "blockInputs vm p =
     (case getAtomicTx vm (ethBlock p) of
        None \<Rightarrow> {}
      | Some atx \<Rightarrow> (case InputUTXOs (UnsignedTx atx) of Return ins \<Rightarrow> ins | Panic \<Rightarrow> {}))"

definition pathInputs :: "VM \<Rightarrow> Block list \<Rightarrow> ID set" where
  "pathInputs vm path = \<Union> (set (map (blockInputs vm) path))"

definition atomicTxKnown :: "VM \<Rightarrow> Block \<Rightarrow> bool" where
  "atomicTxKnown vm p =
     (case getAtomicTx vm (ethBlock p) of None \<Rightarrow> True | Some atx \<Rightarrow> UnsignedTx atx \<noteq> OtherTx)"

definition cachedInputs :: "VM \<Rightarrow> ID \<Rightarrow> ID set option" where
  "cachedInputs vm blkID =
     (case map_of (entries (blockAtomicInputCache vm)) blkID of
        None \<Rightarrow> None
      | Some ptr \<Rightarrow> Some (setHeap vm ! ptr))"

text \<open>\<open>returnedError\<close>: what \<open>Verify\<close> returns, without the state.
  \<open>sameButScan\<close>: two VM states differ at most in the set store and the
  ancestor-input cache.\<close>

definition returnedError :: "(error option \<times> VM) go option \<Rightarrow> error option go option" where
  "returnedError r =
     (case r of None \<Rightarrow> None | Some Panic \<Rightarrow> Some Panic | Some (Return (e, _)) \<Rightarrow> Some (Return e))"

definition sameButScan :: "VM \<Rightarrow> VM \<Rightarrow> bool" where
  "sameButScan vm vm' = (vm' = vm\<lparr>setHeap := setHeap vm', blockAtomicInputCache := blockAtomicInputCache vm'\<rparr>)"

text \<open>\<open>bytesNat\<close> reads a byte string as a big-endian number. \<open>uint64Bytes\<close> is the
  key of the specification: a \<open>uint64\<close> as 8 big-endian bytes. \<open>atomicAccept\<close> is
  the error of the call \<open>utx.Accept(vm.ctx, nil)\<close> that \<open>Block.Accept\<close> makes for
  an import or an export transaction (for another type there is no such call).\<close>

definition bytesNat :: "byte list \<Rightarrow> nat" where
  "bytesNat bs = foldl (\<lambda>acc b. 256 * acc + unat b) 0 bs"

definition uint64Bytes :: "uint64 \<Rightarrow> byte list" where
  "uint64Bytes h = map (\<lambda>i. ucast (drop_bit (8 * (7 - i)) h)) [0..<8]"

text \<open>\<open>acceptAll\<close>: the state after \<open>Accept\<close> has been called on each block of a
  list in turn, whatever each call returned.\<close>

fun acceptAll :: "VM \<Rightarrow> Block list \<Rightarrow> VM" where
  "acceptAll vm [] = vm"
| "acceptAll vm (b # bs) = acceptAll (snd (Block_Accept vm b)) bs"

definition atomicAccept :: "VM \<Rightarrow> UnsignedTx \<Rightarrow> error option" where
  "atomicAccept vm utx =
     (case utx of
        ImportTx itx \<Rightarrow> ImportTx_Accept vm itx
      | ExportTx etx \<Rightarrow> ExportTx_Accept (ext vm) etx
      | OtherTx \<Rightarrow> None)"

section \<open>A concrete chain\<close>

text \<open>
  The genesis block G (id 100), then A (imports UTXO 7), B (no atomic
  transaction), C (imports 8) and D (imports 7) in a line; E, a child of A with
  an ordinary transaction of gas price 0 that imports 7; O, without atomic
  transaction, and P, importing 9, whose parents are not in the block map; Q, a
  child of P. No block has a cached status, the caches are empty.
  \<open>vmC\<close> is the state that \<open>Verify\<close> of C leaves, \<open>vmD\<close> the state that
  \<open>Verify\<close> of D then leaves. The last two states have a failing acceptance
  database and a failing shared memory.
\<close>

definition importTx :: "ID list \<Rightarrow> Tx" where
  "importTx ins = \<lparr>UnsignedTx = ImportTx \<lparr>ImportedInputs = ins\<rparr>, Creds = []\<rparr>"

definition blk :: "ID \<Rightarrow> ID \<Rightarrow> int \<Rightarrow> int list \<Rightarrow> Tx option \<Rightarrow> Block" where
  "blk h parent n gasPrices atx =
     \<lparr>id = h, ethBlock = \<lparr>Hash = h, ParentHash = parent, Number = n, Transactions = gasPrices,
                           ExtData = atx\<rparr>\<rparr>"

definition blkG :: Block where "blkG = blk 100 0 0 [] None"
definition blkA :: Block where "blkA = blk 101 100 1 [] (Some (importTx [7]))"
definition blkB :: Block where "blkB = blk 102 101 2 [] None"
definition blkC :: Block where "blkC = blk 103 102 3 [] (Some (importTx [8]))"
definition blkD :: Block where "blkD = blk 104 103 4 [] (Some (importTx [7]))"
definition blkE :: Block where "blkE = blk 105 101 2 [0] (Some (importTx [7]))"
definition blkO :: Block where "blkO = blk 106 998 5 [] None"
definition blkP :: Block where "blkP = blk 107 999 5 [] (Some (importTx [9]))"
definition blkQ :: Block where "blkQ = blk 108 107 6 [] (Some (importTx [10]))"

definition chain_vm :: VM where
  "chain_vm = ex_vm\<lparr>blocks := map_of [(100, blkG), (101, blkA), (102, blkB), (103, blkC), (104, blkD),
                                        (105, blkE), (106, blkO), (107, blkP), (108, blkQ)]\<rparr>"

definition vmC :: VM where
  "vmC = chain_vm\<lparr>setHeap := [{7}, {7}, {}],
                  blockAtomicInputCache := \<lparr>Size = 8, entries = [(101, 1), (102, 2)]\<rparr>\<rparr>"

definition vmD :: VM where
  "vmD = chain_vm\<lparr>setHeap := [{7}, {7}, {8}, {}, {8}],
                  blockAtomicInputCache := \<lparr>Size = 8, entries = [(101, 1), (102, 2), (103, 4)]\<rparr>\<rparr>"

definition failingDB_vm :: VM where
  "failingDB_vm = chain_vm\<lparr>acceptedDB_PutError := (\<lambda>_ _. Some (ErrExternal ''closed''))\<rparr>"

definition failingSM_vm :: VM where
  "failingSM_vm = chain_vm\<lparr>ImportTx_Accept := (\<lambda>_. Some (ErrExternal ''shared memory''))\<rparr>"

section \<open>Properties of the export transaction\<close>

lemmas ex_export_defs =
  ex_vm_def ex_tx_def ex_ext_def ex_ctx_def ex_in1_def ex_in2_def ex_out_def ex_stx_def ex_st_def

lemmas flow_defs =
  NewFlowChecker_def Produce_def Consume_def FlowChecker_Verify_def Add64_def amountOf_def errsAdd_def

subsection \<open>EVMStateTransfer\<close>

lemma transferInputs_append:
  "transferInputs r a (xs @ ys) st =
     (case transferInputs r a xs st of
        (Some e, st') \<Rightarrow> (Some e, st')
      | (None, st') \<Rightarrow> transferInputs r a ys st')"
  by (induction xs arbitrary: st) (auto split: prod.splits option.splits)

text \<open>
  C4. \<open>EVMStateTransfer\<close> takes the inputs in declaration order. For the input
  \<open>from\<close> at any position, with \<open>st\<close> the state left by the inputs before it: when
  the asset is the native one the base balance of the address is tested and
  debited, otherwise its multi-coin sub-balance for that asset; a balance below
  \<open>amount * x2cRate\<close> returns \<open>errInsufficientFunds\<close> with the state untouched;
  otherwise exactly \<open>amount * x2cRate\<close> is subtracted, and a nonce different from
  the input's returns \<open>errInvalidNonce\<close>; otherwise the nonce becomes \<open>Nonce + 1\<close>
  (64-bit) and the loop goes on with the inputs after \<open>from\<close>.
\<close>

theorem EVMStateTransfer_per_input:
  assumes ins: "Ins tx = pre @ from # post"
    and pre: "ExportTx_EVMStateTransfer vm (tx\<lparr>Ins := pre\<rparr>) st0 = (None, st)"
  shows
    "(AssetID from = ctx_AVAXAssetID (ctx vm) \<longrightarrow>
        (balance st (Address from) < uint (Amount from) * x2cRate vm \<longrightarrow>
           ExportTx_EVMStateTransfer vm tx st0 = (Some ErrInsufficientFunds, st)) \<and>
        (uint (Amount from) * x2cRate vm \<le> balance st (Address from) \<and> nonce st (Address from) \<noteq> Nonce from \<longrightarrow>
           ExportTx_EVMStateTransfer vm tx st0 =
             (Some ErrInvalidNonce,
              st\<lparr>balance := (balance st)(Address from := balance st (Address from) - uint (Amount from) * x2cRate vm)\<rparr>)) \<and>
        (uint (Amount from) * x2cRate vm \<le> balance st (Address from) \<and> nonce st (Address from) = Nonce from \<longrightarrow>
           ExportTx_EVMStateTransfer vm tx st0 =
             ExportTx_EVMStateTransfer vm (tx\<lparr>Ins := post\<rparr>)
               (st\<lparr>balance := (balance st)(Address from := balance st (Address from) - uint (Amount from) * x2cRate vm),
                   nonce := (nonce st)(Address from := Nonce from + 1)\<rparr>))) \<and>
     (AssetID from \<noteq> ctx_AVAXAssetID (ctx vm) \<longrightarrow>
        (balanceMultiCoin st (Address from) (AssetID from) < uint (Amount from) * x2cRate vm \<longrightarrow>
           ExportTx_EVMStateTransfer vm tx st0 = (Some ErrInsufficientFunds, st)) \<and>
        (uint (Amount from) * x2cRate vm \<le> balanceMultiCoin st (Address from) (AssetID from) \<and>
         nonce st (Address from) \<noteq> Nonce from \<longrightarrow>
           ExportTx_EVMStateTransfer vm tx st0 =
             (Some ErrInvalidNonce,
              st\<lparr>balanceMultiCoin := (balanceMultiCoin st)(Address from :=
                   (balanceMultiCoin st (Address from))(AssetID from :=
                      balanceMultiCoin st (Address from) (AssetID from) - uint (Amount from) * x2cRate vm))\<rparr>)) \<and>
        (uint (Amount from) * x2cRate vm \<le> balanceMultiCoin st (Address from) (AssetID from) \<and>
         nonce st (Address from) = Nonce from \<longrightarrow>
           ExportTx_EVMStateTransfer vm tx st0 =
             ExportTx_EVMStateTransfer vm (tx\<lparr>Ins := post\<rparr>)
               (st\<lparr>balanceMultiCoin := (balanceMultiCoin st)(Address from :=
                   (balanceMultiCoin st (Address from))(AssetID from :=
                      balanceMultiCoin st (Address from) (AssetID from) - uint (Amount from) * x2cRate vm)),
                   nonce := (nonce st)(Address from := Nonce from + 1)\<rparr>)))"
proof -
  have split: "ExportTx_EVMStateTransfer vm tx st0 =
      (case transferInput (x2cRate vm) (ctx_AVAXAssetID (ctx vm)) from st of
         (Some e, st') \<Rightarrow> (Some e, st')
       | (None, st') \<Rightarrow> transferInputs (x2cRate vm) (ctx_AVAXAssetID (ctx vm)) post st')"
    using pre by (simp add: ExportTx_EVMStateTransfer_def ins transferInputs_append)
  show ?thesis
    unfolding split
    by (simp add: transferInput_def ExportTx_EVMStateTransfer_def GetBalance_def SubBalance_def
        GetBalanceMultiCoin_def SubBalanceMultiCoin_def GetNonce_def SetNonce_def Let_def)
qed

text \<open>The theorem at the second input of the example transaction: the first input
  debits the base balance, the second the sub-balance of coin 9, and the nonce
  ends at 2.\<close>

theorem EVMStateTransfer_per_input_witness:
  "Ins ex_tx = [ex_in1] @ ex_in2 # [] \<and>
   ExportTx_EVMStateTransfer ex_vm (ex_tx\<lparr>Ins := [ex_in1]\<rparr>) ex_st =
     (None, ex_st\<lparr>balance := (balance ex_st)(1 := 3000000000), nonce := (nonce ex_st)(1 := 1)\<rparr>) \<and>
   ExportTx_EVMStateTransfer ex_vm ex_tx ex_st =
     (None, ex_st\<lparr>balance := (balance ex_st)(1 := 3000000000),
                  balanceMultiCoin := (balanceMultiCoin ex_st)(1 := (balanceMultiCoin ex_st 1)(9 := 0)),
                  nonce := (nonce ex_st)(1 := 2)\<rparr>)"
proof -
  let ?st = "ex_st\<lparr>balance := (balance ex_st)(1 := 3000000000), nonce := (nonce ex_st)(1 := 1)\<rparr>"
  have i: "Ins ex_tx = [ex_in1] @ ex_in2 # []" by (simp add: ex_tx_def)
  have p: "ExportTx_EVMStateTransfer ex_vm (ex_tx\<lparr>Ins := [ex_in1]\<rparr>) ex_st = (None, ?st)"
    by (simp add: ExportTx_EVMStateTransfer_def transferInput_def ex_export_defs
       GetBalance_def SubBalance_def GetNonce_def SetNonce_def Let_def)
  have c: "AssetID ex_in2 \<noteq> ctx_AVAXAssetID (ctx ex_vm)" by (simp add: ex_export_defs)
  have h: "uint (Amount ex_in2) * x2cRate ex_vm \<le> balanceMultiCoin ?st (Address ex_in2) (AssetID ex_in2) \<and>
           nonce ?st (Address ex_in2) = Nonce ex_in2"
    by (simp add: ex_export_defs)
  from EVMStateTransfer_per_input[OF i p, THEN conjunct2, rule_format, OF c, THEN conjunct2, THEN conjunct2,
      rule_format, OF h]
  have "ExportTx_EVMStateTransfer ex_vm ex_tx ex_st =
     (None, ex_st\<lparr>balance := (balance ex_st)(1 := 3000000000),
                  balanceMultiCoin := (balanceMultiCoin ex_st)(1 := (balanceMultiCoin ex_st 1)(9 := 0)),
                  nonce := (nonce ex_st)(1 := 2)\<rparr>)"
    by (simp add: ExportTx_EVMStateTransfer_def ex_export_defs)
  with i p show ?thesis by (intro conjI)
qed

subsection \<open>The exactness of the debit and the overflow error\<close>











subsection \<open>Syntactic verification\<close>

text \<open>
  C6, as the code has it. For a transaction that is not \<open>nil\<close>, not yet marked as
  verified, and whose destination chain is the (non-zero) chain id given:
  an empty \<open>ExportedOutputs\<close> returns \<open>errNoExportOutputs\<close>; and when the outputs
  are not empty, the network and blockchain ids are the context's and every
  input and every output verifies, the call returns \<open>errOutputsNotSorted\<close> if the
  outputs are not sorted and succeeds, marking the transaction, if they are.
\<close>

theorem ExportTx_Verify_outputs_checks:
  assumes "syntacticallyVerified tx = False"
    and "DestinationChain tx \<noteq> 0"
    and "DestinationChain tx = avmID"
  shows
    "(ExportedOutputs tx = [] \<longrightarrow>
        ExportTx_Verify ex avmID cx feeAmount feeAssetID (Some tx) = Inl ErrNoExportOutputs) \<and>
     (ExportedOutputs tx \<noteq> [] \<and> NetworkID tx = ctx_NetworkID cx \<and> ctx_ChainID cx = BlockchainID tx \<and>
      firstError (in_Verify ex) (Ins tx) = None \<and> firstError (out_Verify ex) (ExportedOutputs tx) = None \<longrightarrow>
        ExportTx_Verify ex avmID cx feeAmount feeAssetID (Some tx) =
          (if IsSortedTransferableOutputs ex (ExportedOutputs tx)
           then Inr (tx\<lparr>syntacticallyVerified := True\<rparr>)
           else Inl ErrOutputsNotSorted))"
  using assms by (simp add: ExportTx_Verify_def)

text \<open>C6 as stated fails: an empty \<open>ExportedOutputs\<close> with a zero destination chain
  returns \<open>errWrongChainID\<close>, the earlier case of the switch.\<close>

theorem ExportTx_Verify_empty_outputs_counterexample:
  "ExportedOutputs (ex_tx\<lparr>DestinationChain := 0, ExportedOutputs := []\<rparr>) = [] \<and>
   ExportTx_Verify ex_ext 3 ex_ctx 1 4 (Some (ex_tx\<lparr>DestinationChain := 0, ExportedOutputs := []\<rparr>))
     = Inl ErrWrongChainID \<and>
   ExportTx_Verify ex_ext 3 ex_ctx 1 4 (Some (ex_tx\<lparr>DestinationChain := 0, ExportedOutputs := []\<rparr>))
     \<noteq> Inl ErrNoExportOutputs"
  by (simp add: ExportTx_Verify_def ex_tx_def)

theorem ExportTx_Verify_outputs_checks_witness:
  "ExportTx_Verify ex_ext 3 ex_ctx 1 4 (Some (ex_tx\<lparr>ExportedOutputs := []\<rparr>)) = Inl ErrNoExportOutputs \<and>
   ExportTx_Verify ex_ext 3 ex_ctx 1 4 (Some ex_tx) = Inr (ex_tx\<lparr>syntacticallyVerified := True\<rparr>) \<and>
   ExportTx_Verify ex_ext 3 ex_ctx 1 4 (Some (ex_tx\<lparr>ExportedOutputs := [ex_out, ex_out\<lparr>Asset := 8\<rparr>]\<rparr>))
     = Inl ErrOutputsNotSorted"
proof -
  have 1: "ExportTx_Verify ex_ext 3 ex_ctx 1 4 (Some (ex_tx\<lparr>ExportedOutputs := []\<rparr>)) = Inl ErrNoExportOutputs"
    using ExportTx_Verify_outputs_checks[of "ex_tx\<lparr>ExportedOutputs := []\<rparr>" 3 ex_ext ex_ctx 1 4]
    by (simp add: ex_tx_def)
  have 2: "ExportTx_Verify ex_ext 3 ex_ctx 1 4 (Some ex_tx) = Inr (ex_tx\<lparr>syntacticallyVerified := True\<rparr>)"
    using ExportTx_Verify_outputs_checks[of ex_tx 3 ex_ext ex_ctx 1 4]
    by (simp add: ex_tx_def ex_ext_def ex_ctx_def)
  have 3: "ExportTx_Verify ex_ext 3 ex_ctx 1 4 (Some (ex_tx\<lparr>ExportedOutputs := [ex_out, ex_out\<lparr>Asset := 8\<rparr>]\<rparr>))
     = Inl ErrOutputsNotSorted"
    using ExportTx_Verify_outputs_checks[of "ex_tx\<lparr>ExportedOutputs := [ex_out, ex_out\<lparr>Asset := 8\<rparr>]\<rparr>" 3 ex_ext ex_ctx 1 4]
    by (simp add: ex_tx_def ex_ext_def ex_ctx_def ex_out_def)
  from 1 2 3 show ?thesis by (intro conjI)
qed

subsection \<open>The credential loop of SemanticVerify\<close>

lemma verifyCreds_prefix:
  "credsPass ex tx i pre \<Longrightarrow>
   verifyCreds ex tx i (pre @ rest) = verifyCreds ex tx (i + length pre) rest"
  by (induction pre arbitrary: i)
     (auto simp: credMatches_def split: Credential.splits list.splits sum.splits)

lemma verifyCreds_ok:
  "verifyCreds ex tx i creds = Return None \<Longrightarrow> credsPass ex tx i creds"
  by (induction creds arbitrary: i)
     (auto simp: credMatches_def split: Credential.splits list.splits sum.splits option.splits if_splits)

lemma credsPass_nth:
  "credsPass ex tx i creds \<Longrightarrow> k < length creds \<Longrightarrow> credMatches ex tx (i + k) (creds ! k)"
proof (induction creds arbitrary: i k)
  case Nil
  then show ?case by simp
next
  case (Cons c cs)
  show ?case
  proof (cases k)
    case 0
    with Cons.prems show ?thesis by simp
  next
    case (Suc k')
    with Cons.prems have "credMatches ex tx (Suc i + k') (cs ! k')"
      by (intro Cons.IH) auto
    with Suc show ?thesis by simp
  qed
qed

lemma verifyCreds_flag:
  "verifyCreds ex (tx\<lparr>syntacticallyVerified := f\<rparr>) i creds = verifyCreds ex tx i creds"
  by (induction creds arbitrary: i) (auto split: Credential.splits list.splits sum.splits option.splits)

lemma ExportTx_Verify_Inr:
  "ExportTx_Verify ex avm cx fee fa (Some tx) = Inr tx' \<Longrightarrow> tx' = tx\<lparr>syntacticallyVerified := True\<rparr>"
  by (auto simp: ExportTx_Verify_def split: if_splits option.splits)

lemma SemanticVerify_ok_verifyCreds:
  assumes "ExportTx_SemanticVerify vm (Some tx) stx = Return None"
  shows "verifyCreds (ext vm) tx 0 (Creds stx) = Return None"
proof -
  from assms obtain tx' where v: "ExportTx_Verify (ext vm) (ctx_XChainID (ctx vm)) (ctx vm) (txFee vm)
      (ctx_AVAXAssetID (ctx vm)) (Some tx) = Inr tx'"
    by (auto simp: ExportTx_SemanticVerify_def split: sum.splits)
  with assms have "verifyCreds (ext vm) tx' 0 (Creds stx) = Return None"
    by (auto simp: ExportTx_SemanticVerify_def Let_def split: go.splits option.splits)
  with ExportTx_Verify_Inr[OF v] show ?thesis by (simp add: verifyCreds_flag)
qed

lemma verifyCreds_take:
  "i + length creds \<le> n \<Longrightarrow>
   verifyCreds ex (tx\<lparr>Ins := take n (Ins tx)\<rparr>) i creds = verifyCreds ex tx i creds"
  by (induction creds arbitrary: i)
     (auto split: Credential.splits list.splits sum.splits option.splits)

lemma credsPass_length:
  "credsPass ex tx i creds \<Longrightarrow> creds \<noteq> [] \<Longrightarrow> i + length creds \<le> length (Ins tx)"
proof (induction creds arbitrary: i)
  case Nil
  then show ?case by simp
next
  case (Cons c cs)
  then have i: "i < length (Ins tx)"
    by (auto simp: credMatches_def split: Credential.splits list.splits sum.splits)
  show ?case
  proof (cases "cs = []")
    case True
    with i show ?thesis by simp
  next
    case False
    from Cons.prems have "credsPass ex tx (Suc i) cs" by simp
    from Cons.IH[OF this False] show ?thesis by simp
  qed
qed

text \<open>
  C5. If \<open>SemanticVerify\<close> succeeds, then for every credential index \<open>i\<close> the key
  recovered from the first signature of credential \<open>i\<close> over the unsigned bytes
  maps to the address of \<open>Ins[i]\<close>. And when syntactic verification passes, the
  credentials before some position all verify and match, and the credential at
  that position verifies and recovers a key that maps to another address than
  its input's, the result is \<open>permError{errPublicKeySignatureMismatch}\<close>.
\<close>

theorem SemanticVerify_signature_binding:
  "(ExportTx_SemanticVerify vm (Some tx) stx = Return None \<longrightarrow>
      (\<forall>i < length (Creds stx). credMatches (ext vm) tx i (Creds stx ! i))) \<and>
   (ExportTx_Verify (ext vm) (ctx_XChainID (ctx vm)) (ctx vm) (txFee vm) (ctx_AVAXAssetID (ctx vm)) (Some tx)
       = Inr tx' \<and>
    Creds stx = pre @ cred # rest \<and> credsPass (ext vm) tx 0 pre \<and>
    cred_Verify (ext vm) cred = None \<and> credMismatches (ext vm) tx (length pre) cred \<longrightarrow>
      ExportTx_SemanticVerify vm (Some tx) stx = Return (Some (permError ErrPublicKeySignatureMismatch)))"
proof (intro conjI impI allI)
  fix i
  assume ok: "ExportTx_SemanticVerify vm (Some tx) stx = Return None" and i: "i < length (Creds stx)"
  from SemanticVerify_ok_verifyCreds[OF ok] have "credsPass (ext vm) tx 0 (Creds stx)"
    by (rule verifyCreds_ok)
  from credsPass_nth[OF this i] show "credMatches (ext vm) tx i (Creds stx ! i)" by simp
next
  assume a: "ExportTx_Verify (ext vm) (ctx_XChainID (ctx vm)) (ctx vm) (txFee vm) (ctx_AVAXAssetID (ctx vm)) (Some tx)
       = Inr tx' \<and>
    Creds stx = pre @ cred # rest \<and> credsPass (ext vm) tx 0 pre \<and>
    cred_Verify (ext vm) cred = None \<and> credMismatches (ext vm) tx (length pre) cred"
  then have tx': "tx' = tx\<lparr>syntacticallyVerified := True\<rparr>" by (auto dest: ExportTx_Verify_Inr)
  from a have "verifyCreds (ext vm) tx 0 (Creds stx) = verifyCreds (ext vm) tx (length pre) (cred # rest)"
    by (simp add: verifyCreds_prefix)
  also from a have "\<dots> = Return (Some (permError ErrPublicKeySignatureMismatch))"
    by (auto simp: credMismatches_def split: Credential.splits list.splits sum.splits)
  finally have "verifyCreds (ext vm) tx' 0 (Creds stx) = Return (Some (permError ErrPublicKeySignatureMismatch))"
    by (simp add: tx' verifyCreds_flag)
  with a show "ExportTx_SemanticVerify vm (Some tx) stx = Return (Some (permError ErrPublicKeySignatureMismatch))"
    by (simp add: ExportTx_SemanticVerify_def)
qed

theorem SemanticVerify_signature_binding_witness:
  "ExportTx_SemanticVerify ex_vm (Some ex_tx) (ex_stx [Secp256k1Credential [[1]], Secp256k1Credential [[1]]])
     = Return None \<and>
   credMatches (ext ex_vm) ex_tx 1 (Secp256k1Credential [[1]]) \<and>
   ExportTx_SemanticVerify ex_vm (Some ex_tx) (ex_stx [Secp256k1Credential [[1]], Secp256k1Credential [[2]]])
     = Return (Some (permError ErrPublicKeySignatureMismatch))"
proof -
  let ?good = "ex_stx [Secp256k1Credential [[1]], Secp256k1Credential [[1]]]"
  let ?bad = "ex_stx [Secp256k1Credential [[1]], Secp256k1Credential [[2]]]"
  have ok: "ExportTx_SemanticVerify ex_vm (Some ex_tx) ?good = Return None"
    by (simp add: ExportTx_SemanticVerify_def ExportTx_Verify_def ex_export_defs flow_defs)
  from SemanticVerify_signature_binding[of ex_vm ex_tx ?good, THEN conjunct1, rule_format, OF ok, of 1]
  have m: "credMatches (ext ex_vm) ex_tx 1 (Secp256k1Credential [[1]])"
    by (simp add: ex_stx_def)
  have h: "ExportTx_Verify (ext ex_vm) (ctx_XChainID (ctx ex_vm)) (ctx ex_vm) (txFee ex_vm)
             (ctx_AVAXAssetID (ctx ex_vm)) (Some ex_tx) = Inr (ex_tx\<lparr>syntacticallyVerified := True\<rparr>) \<and>
           Creds ?bad = [Secp256k1Credential [[1]]] @ Secp256k1Credential [[2]] # [] \<and>
           credsPass (ext ex_vm) ex_tx 0 [Secp256k1Credential [[1]]] \<and>
           cred_Verify (ext ex_vm) (Secp256k1Credential [[2]]) = None \<and>
           credMismatches (ext ex_vm) ex_tx (length [Secp256k1Credential [[1]]]) (Secp256k1Credential [[2]])"
    by (simp add: ExportTx_Verify_def credMatches_def credMismatches_def ex_export_defs)
  from SemanticVerify_signature_binding[where vm = ex_vm and tx = ex_tx and stx = "?bad", THEN conjunct2, rule_format, OF h]
  have b: "ExportTx_SemanticVerify ex_vm (Some ex_tx) ?bad = Return (Some (permError ErrPublicKeySignatureMismatch))" .
  from ok m b show ?thesis by (intro conjI)
qed

lemma ex_fewer_creds:
  "ExportTx_SemanticVerify ex_vm (Some ex_tx) (ex_stx [Secp256k1Credential [[1]]]) = Return None"
  by (simp add: ExportTx_SemanticVerify_def ExportTx_Verify_def ex_export_defs flow_defs)

text \<open>
  C8. The credential loop reads only the first \<open>len(stx.Creds)\<close> inputs, so with
  fewer credentials than inputs the later inputs get no signature check, and
  such a transaction can pass \<open>SemanticVerify\<close>. With more credentials than
  inputs \<open>SemanticVerify\<close> never succeeds, and when the credentials up to the
  number of inputs pass and the next one verifies and recovers a key, \<open>tx.Ins[i]\<close>
  is read out of range: the call panics.
\<close>

theorem SemanticVerify_credential_count:
  "verifyCreds (ext vm) tx 0 (Creds stx) =
     verifyCreds (ext vm) (tx\<lparr>Ins := take (length (Creds stx)) (Ins tx)\<rparr>) 0 (Creds stx) \<and>
   (\<exists>vm' tx' stx'. length (Creds stx') < length (Ins tx') \<and>
      ExportTx_SemanticVerify vm' (Some tx') stx' = Return None) \<and>
   (length (Ins tx) < length (Creds stx) \<longrightarrow> ExportTx_SemanticVerify vm (Some tx) stx \<noteq> Return None) \<and>
   (ExportTx_Verify (ext vm) (ctx_XChainID (ctx vm)) (ctx vm) (txFee vm) (ctx_AVAXAssetID (ctx vm)) (Some tx)
       = Inr tx' \<and>
    Creds stx = pre @ cred # rest \<and> length pre = length (Ins tx) \<and> credsPass (ext vm) tx 0 pre \<and>
    cred_Verify (ext vm) cred = None \<and> credRecovers (ext vm) tx cred \<longrightarrow>
      ExportTx_SemanticVerify vm (Some tx) stx = Panic)"
proof (intro conjI impI)
  show "verifyCreds (ext vm) tx 0 (Creds stx) =
     verifyCreds (ext vm) (tx\<lparr>Ins := take (length (Creds stx)) (Ins tx)\<rparr>) 0 (Creds stx)"
    by (simp add: verifyCreds_take)
next
  have "length (Creds (ex_stx [Secp256k1Credential [[1]]])) < length (Ins ex_tx)"
    by (simp add: ex_stx_def ex_tx_def)
  with ex_fewer_creds show "\<exists>vm' tx' stx'. length (Creds stx') < length (Ins tx') \<and>
      ExportTx_SemanticVerify vm' (Some tx') stx' = Return None"
    by blast
next
  assume more: "length (Ins tx) < length (Creds stx)"
  show "ExportTx_SemanticVerify vm (Some tx) stx \<noteq> Return None"
  proof
    assume "ExportTx_SemanticVerify vm (Some tx) stx = Return None"
    then have "credsPass (ext vm) tx 0 (Creds stx)"
      by (intro verifyCreds_ok SemanticVerify_ok_verifyCreds)
    moreover from more have "Creds stx \<noteq> []" by auto
    ultimately have "0 + length (Creds stx) \<le> length (Ins tx)" by (rule credsPass_length)
    with more show False by simp
  qed
next
  assume a: "ExportTx_Verify (ext vm) (ctx_XChainID (ctx vm)) (ctx vm) (txFee vm) (ctx_AVAXAssetID (ctx vm)) (Some tx)
       = Inr tx' \<and>
    Creds stx = pre @ cred # rest \<and> length pre = length (Ins tx) \<and> credsPass (ext vm) tx 0 pre \<and>
    cred_Verify (ext vm) cred = None \<and> credRecovers (ext vm) tx cred"
  then have tx': "tx' = tx\<lparr>syntacticallyVerified := True\<rparr>" by (auto dest: ExportTx_Verify_Inr)
  from a have "verifyCreds (ext vm) tx 0 (Creds stx) = verifyCreds (ext vm) tx (length pre) (cred # rest)"
    by (simp add: verifyCreds_prefix)
  also from a have "\<dots> = Panic"
    by (auto simp: credRecovers_def split: Credential.splits list.splits sum.splits)
  finally have "verifyCreds (ext vm) tx' 0 (Creds stx) = Panic"
    by (simp add: tx' verifyCreds_flag)
  with a show "ExportTx_SemanticVerify vm (Some tx) stx = Panic"
    by (simp add: ExportTx_SemanticVerify_def)
qed

theorem SemanticVerify_credential_count_witness:
  "length (Ins ex_tx) < length (Creds (ex_stx [Secp256k1Credential [[1]], Secp256k1Credential [[1]], Secp256k1Credential [[1]]])) \<and>
   ExportTx_SemanticVerify ex_vm (Some ex_tx)
     (ex_stx [Secp256k1Credential [[1]], Secp256k1Credential [[1]], Secp256k1Credential [[1]]]) = Panic \<and>
   length (Creds (ex_stx [Secp256k1Credential [[1]]])) < length (Ins ex_tx) \<and>
   ExportTx_SemanticVerify ex_vm (Some ex_tx) (ex_stx [Secp256k1Credential [[1]]]) = Return None"
proof -
  let ?more = "ex_stx [Secp256k1Credential [[1]], Secp256k1Credential [[1]], Secp256k1Credential [[1]]]"
  have l: "length (Ins ex_tx) < length (Creds ?more)" by (simp add: ex_stx_def ex_tx_def)
  have h: "ExportTx_Verify (ext ex_vm) (ctx_XChainID (ctx ex_vm)) (ctx ex_vm) (txFee ex_vm)
             (ctx_AVAXAssetID (ctx ex_vm)) (Some ex_tx) = Inr (ex_tx\<lparr>syntacticallyVerified := True\<rparr>) \<and>
           Creds ?more = [Secp256k1Credential [[1]], Secp256k1Credential [[1]]] @ Secp256k1Credential [[1]] # [] \<and>
           length [Secp256k1Credential [[1]], Secp256k1Credential [[1]]] = length (Ins ex_tx) \<and>
           credsPass (ext ex_vm) ex_tx 0 [Secp256k1Credential [[1]], Secp256k1Credential [[1]]] \<and>
           cred_Verify (ext ex_vm) (Secp256k1Credential [[1]]) = None \<and>
           credRecovers (ext ex_vm) ex_tx (Secp256k1Credential [[1]])"
    by (simp add: ExportTx_Verify_def credMatches_def credRecovers_def ex_export_defs)
  from SemanticVerify_credential_count[of ex_vm ex_tx ?more, THEN conjunct2, THEN conjunct2, THEN conjunct2,
      rule_format, OF h]
  have p: "ExportTx_SemanticVerify ex_vm (Some ex_tx) ?more = Panic" .
  have f: "length (Creds (ex_stx [Secp256k1Credential [[1]]])) < length (Ins ex_tx)"
    by (simp add: ex_stx_def ex_tx_def)
  from l p f ex_fewer_creds show ?thesis by (intro conjI)
qed

section \<open>Properties of the blocks\<close>

subsection \<open>The ancestry walk\<close>

lemma walk_accepted:
  "Status vm p = Accepted \<Longrightarrow> walkAncestors vm c p path = Some (Return (None, path, c))"
  by (subst walkAncestors.simps) simp

lemma walk_missing:
  "walkAncestors vm c (MissingBlock k) path = Some Panic"
  by (subst walkAncestors.simps) (simp add: Status_def asBlock_def)

lemma walk_genesis:
  "Block_Status vm pb \<noteq> Accepted \<Longrightarrow> Hash (ethBlock pb) = genesisHash vm \<Longrightarrow>
   walkAncestors vm c (EVMBlock pb) path = Some (Return (None, path, c))"
  by (subst walkAncestors.simps) (simp add: Status_def asBlock_def)

lemma walk_hit:
  "Block_Status vm pb \<noteq> Accepted \<Longrightarrow> Hash (ethBlock pb) \<noteq> genesisHash vm \<Longrightarrow>
   fst (lru_Get c (id pb)) = Some ret \<Longrightarrow>
   walkAncestors vm c (EVMBlock pb) path = Some (Return (Some ret, path, snd (lru_Get c (id pb))))"
  by (subst walkAncestors.simps, cases "lru_Get c (id pb)") (simp add: Status_def asBlock_def)

lemma walk_miss:
  "Block_Status vm pb \<noteq> Accepted \<Longrightarrow> Hash (ethBlock pb) \<noteq> genesisHash vm \<Longrightarrow>
   fst (lru_Get c (id pb)) = None \<Longrightarrow>
   walkAncestors vm c (EVMBlock pb) path =
     walkAncestors vm (snd (lru_Get c (id pb))) (Parent vm pb) (path @ [pb])"
proof (cases "Parent vm pb")
  case (EVMBlock q)
  assume "Block_Status vm pb \<noteq> Accepted" "Hash (ethBlock pb) \<noteq> genesisHash vm"
    "fst (lru_Get c (id pb)) = None"
  with EVMBlock show ?thesis
    by (subst walkAncestors.simps, cases "lru_Get c (id pb)") (simp add: Status_def asBlock_def)
next
  case (MissingBlock k)
  assume "Block_Status vm pb \<noteq> Accepted" "Hash (ethBlock pb) \<noteq> genesisHash vm"
    "fst (lru_Get c (id pb)) = None"
  with MissingBlock show ?thesis
    by (subst walkAncestors.simps, cases "lru_Get c (id pb)")
       (simp add: Status_def asBlock_def walk_missing)
qed

lemma walk_stops:
  assumes "stops vm b"
  shows "walkAncestors vm c (EVMBlock b) path = Some (Return (None, path, c))"
proof (cases "Block_Status vm b = Accepted")
  case True
  then have "Status vm (EVMBlock b) = Accepted" by (simp add: Status_def)
  then show ?thesis by (rule walk_accepted)
next
  case False
  with assms have "Hash (ethBlock b) = genesisHash vm" by (simp add: stops_def)
  with False show ?thesis by (rule walk_genesis)
qed

lemma map_of_drop_None: "map_of xs k = None \<Longrightarrow> map_of (drop n xs) k = None"
  by (induction xs arbitrary: n) (auto simp: drop_Cons split: nat.splits if_splits)

lemma lru_resize_idem: "lru_resize (lru_resize c) = lru_resize c"
  by (simp add: lru_resize_def Let_def)

lemma lru_Get_miss: "map_of (entries c) k = None \<Longrightarrow> lru_Get c k = (None, lru_resize c)"
  by (simp add: lru_Get_def Let_def lru_resize_def map_of_drop_None)

lemma uncached_resize: "uncached c path \<Longrightarrow> uncached (lru_resize c) path"
  by (induction path) (auto simp: uncached_def lru_resize_def Let_def map_of_drop_None)

lemma walk_chain:
  "chainEnd vm p path = Some e \<Longrightarrow> uncached c path \<Longrightarrow>
   walkAncestors vm c p acc =
     walkAncestors vm (if path = [] then c else lru_resize c) e (acc @ path)"
proof (induction path arbitrary: p acc c)
  case Nil
  then show ?case by simp
next
  case (Cons q qs)
  from Cons.prems(1) have p: "p = EVMBlock q" and ns: "\<not> stops vm q"
    and rest: "chainEnd vm (Parent vm q) qs = Some e"
    by (auto split: if_splits)
  from Cons.prems(2) have miss: "map_of (entries c) (id q) = None" and u: "uncached c qs"
    by (auto simp: uncached_def)
  from ns have s: "Block_Status vm q \<noteq> Accepted" "Hash (ethBlock q) \<noteq> genesisHash vm"
    by (auto simp: stops_def)
  have "walkAncestors vm c p acc = walkAncestors vm (lru_resize c) (Parent vm q) (acc @ [q])"
    using walk_miss[OF s, of c acc] by (simp add: p lru_Get_miss[OF miss])
  also have "\<dots> = walkAncestors vm (if qs = [] then lru_resize c else lru_resize (lru_resize c)) e
      ((acc @ [q]) @ qs)"
    by (rule Cons.IH[OF rest uncached_resize[OF u]])
  finally show ?case by (simp add: lru_resize_idem)
qed

lemma scan_fields_irrelevant:
  "Block_Status (vm\<lparr>setHeap := h\<rparr>) b = Block_Status vm b"
  "Block_Status (vm\<lparr>blockAtomicInputCache := c\<rparr>) b = Block_Status vm b"
  "Parent (vm\<lparr>setHeap := h\<rparr>) b = Parent vm b"
  "Parent (vm\<lparr>blockAtomicInputCache := c\<rparr>) b = Parent vm b"
  "stops (vm\<lparr>setHeap := h\<rparr>) b = stops vm b"
  "stops (vm\<lparr>blockAtomicInputCache := c\<rparr>) b = stops vm b"
  "getAtomicTx (vm\<lparr>setHeap := h\<rparr>) e = getAtomicTx vm e"
  "getAtomicTx (vm\<lparr>blockAtomicInputCache := c\<rparr>) e = getAtomicTx vm e"
  by (simp_all add: Block_Status_def getCachedStatus_def Parent_def getBlock_def stops_def getAtomicTx_def)

lemma chainEnd_heap: "chainEnd (vm\<lparr>setHeap := h\<rparr>) p path = chainEnd vm p path"
  by (induction path arbitrary: p) (simp_all add: scan_fields_irrelevant)

lemma blockInputs_any: "blockInputs vm' = blockInputs vm"
  by (rule ext) (simp add: blockInputs_def getAtomicTx_def)

lemma atomicTxKnown_any: "atomicTxKnown vm' = atomicTxKnown vm"
  by (rule ext) (simp add: atomicTxKnown_def getAtomicTx_def)

lemma pathInputs_any: "pathInputs vm' = pathInputs vm"
  by (rule ext) (simp add: pathInputs_def blockInputs_any[of vm' vm])

lemma pathInputs_simps:
  "pathInputs vm [] = {}"
  "pathInputs vm (p # ps) = blockInputs vm p \<union> pathInputs vm ps"
  "pathInputs vm (rev ps) = pathInputs vm ps"
  by (simp_all add: pathInputs_def)

subsection \<open>The memoization loop and the conflict scan\<close>

lemma sameButScan_refl: "sameButScan vm vm"
  by (simp add: sameButScan_def)

lemma memoizePath_heap:
  "inputs < length (setHeap vm) \<Longrightarrow> list_all (atomicTxKnown vm) ps \<Longrightarrow>
   \<exists>vm'. memoizePath ps inputs vm = Return vm' \<and>
         setHeap vm' ! inputs = setHeap vm ! inputs \<union> pathInputs vm ps \<and>
         sameButScan vm vm'"
proof (induction ps arbitrary: vm)
  case Nil
  then show ?case by (simp add: pathInputs_simps sameButScan_refl)
next
  case (Cons p ps)
  let ?h1 = "setHeap vm @ [{}]"
  let ?n = "length (setHeap vm)"
  show ?case
  proof (cases "getAtomicTx vm (ethBlock p)")
    case None
    let ?vm = "vm\<lparr>setHeap := ?h1, blockAtomicInputCache := lru_Put (blockAtomicInputCache vm) (id p) ?n\<rparr>"
    have step: "memoizePath (p # ps) inputs vm = memoizePath ps inputs ?vm"
      using None by (simp add: newSet_def getAtomicTx_def)
    have "inputs < length (setHeap ?vm)" using Cons.prems by simp
    moreover have "list_all (atomicTxKnown ?vm) ps"
      unfolding atomicTxKnown_any[of ?vm vm] using Cons.prems by simp
    ultimately obtain vm' where r: "memoizePath ps inputs ?vm = Return vm'"
      and h: "setHeap vm' ! inputs = setHeap ?vm ! inputs \<union> pathInputs ?vm ps"
      and f: "sameButScan ?vm vm'"
      using Cons.IH[of ?vm] by blast
    have bi: "blockInputs vm p = {}" using None by (simp add: blockInputs_def)
    have "setHeap vm' ! inputs = setHeap vm ! inputs \<union> pathInputs vm (p # ps)"
      using h[unfolded pathInputs_any[of ?vm vm]] Cons.prems(1)
      by (simp add: nth_append pathInputs_simps bi)
    moreover have "sameButScan vm vm'"
      using f unfolding sameButScan_def by (cases vm, cases vm') simp
    ultimately show ?thesis using step r by simp
  next
    case (Some atx)
    from Cons.prems(2) Some have "UnsignedTx atx \<noteq> OtherTx" by (simp add: atomicTxKnown_def)
    then obtain ins where ins: "InputUTXOs (UnsignedTx atx) = Return ins"
      by (cases "UnsignedTx atx") (simp_all add: InputUTXOs_def)
    let ?h2 = "?h1[inputs := ?h1 ! inputs \<union> ins]"
    let ?h3 = "?h2[?n := ?h2 ! ?n \<union> ?h2 ! inputs]"
    let ?vm = "vm\<lparr>setHeap := ?h3, blockAtomicInputCache := lru_Put (blockAtomicInputCache vm) (id p) ?n\<rparr>"
    have step: "memoizePath (p # ps) inputs vm = memoizePath ps inputs ?vm"
      using Some ins by (simp add: newSet_def setUnion_def getAtomicTx_def Let_def)
    have "inputs < length (setHeap ?vm)" using Cons.prems by simp
    moreover have "list_all (atomicTxKnown ?vm) ps"
      unfolding atomicTxKnown_any[of ?vm vm] using Cons.prems by simp
    ultimately obtain vm' where r: "memoizePath ps inputs ?vm = Return vm'"
      and h: "setHeap vm' ! inputs = setHeap ?vm ! inputs \<union> pathInputs ?vm ps"
      and f: "sameButScan ?vm vm'"
      using Cons.IH[of ?vm] by blast
    have bi: "blockInputs vm p = ins" using Some ins by (simp add: blockInputs_def)
    have "setHeap ?vm ! inputs = setHeap vm ! inputs \<union> ins"
      using Cons.prems(1) by (simp add: nth_append)
    then have "setHeap vm' ! inputs = setHeap vm ! inputs \<union> pathInputs vm (p # ps)"
      using h[unfolded pathInputs_any[of ?vm vm]] by (simp add: pathInputs_simps bi Un_assoc)
    moreover have "sameButScan vm vm'"
      using f unfolding sameButScan_def by (cases vm, cases vm') simp
    ultimately show ?thesis using step r by simp
  qed
qed

lemma sameButScan_fields:
  assumes "sameButScan vm vm'"
  shows "InsertChain vm' = InsertChain vm" "Process vm' = Process vm"
    "ImportTx_SemanticVerify vm' = ImportTx_SemanticVerify vm"
    "blocks vm' = blocks vm" "ctx vm' = ctx vm" "ext vm' = ext vm" "txFee vm' = txFee vm"
proof -
  from assms have e: "vm' = vm\<lparr>setHeap := setHeap vm', blockAtomicInputCache := blockAtomicInputCache vm'\<rparr>"
    by (simp add: sameButScan_def)
  show "InsertChain vm' = InsertChain vm" by (subst e) simp
  show "Process vm' = Process vm" by (subst e) simp
  show "ImportTx_SemanticVerify vm' = ImportTx_SemanticVerify vm" by (subst e) simp
  show "blocks vm' = blocks vm" by (subst e) simp
  show "ctx vm' = ctx vm" by (subst e) simp
  show "ext vm' = ext vm" by (subst e) simp
  show "txFee vm' = txFee vm" by (subst e) simp
qed

lemma conflictScan_cold:
  assumes path: "unacceptedPath vm (Parent vm b) path"
    and unc: "uncached (blockAtomicInputCache vm) path"
    and known: "list_all (atomicTxKnown vm) path"
  shows "\<exists>vm'. conflictScan vm b atx =
            Some (Return (ImportTx_InputUTXOs atx \<inter> pathInputs vm path \<noteq> {}, vm')) \<and>
          sameButScan vm vm'"
proof -
  let ?vm1 = "vm\<lparr>setHeap := setHeap vm @ [{}]\<rparr>"
  let ?n = "length (setHeap vm)"
  from path obtain e where ce: "chainEnd vm (Parent vm b) path = Some (EVMBlock e)" and st: "stops vm e"
    by (auto simp: unacceptedPath_def split: option.splits SnowmanBlock.splits)
  let ?c = "if path = [] then blockAtomicInputCache vm else lru_resize (blockAtomicInputCache vm)"
  have "walkAncestors ?vm1 (blockAtomicInputCache vm) (Parent vm b) [] =
          walkAncestors ?vm1 ?c (EVMBlock e) ([] @ path)"
    by (rule walk_chain) (simp_all add: chainEnd_heap ce unc)
  also have "\<dots> = Some (Return (None, path, ?c))"
    using st by (simp add: walk_stops scan_fields_irrelevant)
  finally have w: "walkAncestors ?vm1 (blockAtomicInputCache ?vm1) (Parent ?vm1 b) [] =
      Some (Return (None, path, ?c))"
    by (simp add: scan_fields_irrelevant)
  let ?vm2 = "?vm1\<lparr>blockAtomicInputCache := ?c\<rparr>"
  have "?n < length (setHeap ?vm2)" by simp
  moreover have "list_all (atomicTxKnown ?vm2) (rev path)"
    unfolding atomicTxKnown_any[of ?vm2 vm] using known by simp
  ultimately obtain vm' where m: "memoizePath (rev path) ?n ?vm2 = Return vm'"
    and h: "setHeap vm' ! ?n = setHeap ?vm2 ! ?n \<union> pathInputs ?vm2 (rev path)"
    and f: "sameButScan ?vm2 vm'"
    using memoizePath_heap[of ?n ?vm2 "rev path"] by blast
  from h[unfolded pathInputs_any[of ?vm2 vm]] have h': "setHeap vm' ! ?n = pathInputs vm path"
    by (simp add: pathInputs_simps)
  have f': "sameButScan vm vm'"
    using f unfolding sameButScan_def by (cases vm, cases vm') simp
  have "conflictScan vm b atx = Some (Return (ImportTx_InputUTXOs atx \<inter> pathInputs vm path \<noteq> {}, vm'))"
    unfolding conflictScan_def newSet_def using w m h' by simp
  with f' show ?thesis by blast
qed

lemma conflictScan_dangling:
  assumes path: "danglingPath vm (Parent vm b) path"
    and unc: "uncached (blockAtomicInputCache vm) path"
  shows "conflictScan vm b atx = Some Panic"
proof -
  let ?vm1 = "vm\<lparr>setHeap := setHeap vm @ [{}]\<rparr>"
  from path obtain k where ce: "chainEnd vm (Parent vm b) path = Some (MissingBlock k)"
    by (auto simp: danglingPath_def split: option.splits SnowmanBlock.splits)
  let ?c = "if path = [] then blockAtomicInputCache vm else lru_resize (blockAtomicInputCache vm)"
  have "walkAncestors ?vm1 (blockAtomicInputCache vm) (Parent vm b) [] =
          walkAncestors ?vm1 ?c (MissingBlock k) ([] @ path)"
    by (rule walk_chain) (simp_all add: chainEnd_heap ce unc)
  also have "\<dots> = Some Panic" by (rule walk_missing)
  finally have w: "walkAncestors ?vm1 (blockAtomicInputCache ?vm1) (Parent ?vm1 b) [] = Some Panic"
    by (simp add: scan_fields_irrelevant)
  show ?thesis unfolding conflictScan_def newSet_def using w by simp
qed

lemma conflictScan_hit:
  assumes ce: "chainEnd vm (Parent vm b) pre = Some (EVMBlock q)"
    and ns: "\<not> stops vm q"
    and unc: "uncached (blockAtomicInputCache vm) pre"
    and hit: "map_of (entries (lru_resize (blockAtomicInputCache vm))) (id q) = Some ptr"
    and ptr: "ptr < length (setHeap vm)"
    and known: "list_all (atomicTxKnown vm) pre"
  shows "\<exists>vm'. conflictScan vm b atx =
            Some (Return (ImportTx_InputUTXOs atx \<inter> (setHeap vm ! ptr \<union> pathInputs vm pre) \<noteq> {}, vm')) \<and>
          sameButScan vm vm'"
proof -
  let ?vm1 = "vm\<lparr>setHeap := setHeap vm @ [{}]\<rparr>"
  let ?c = "if pre = [] then blockAtomicInputCache vm else lru_resize (blockAtomicInputCache vm)"
  from ns have s: "Block_Status ?vm1 q \<noteq> Accepted" "Hash (ethBlock q) \<noteq> genesisHash ?vm1"
    by (auto simp: stops_def scan_fields_irrelevant)
  have "lru_resize ?c = lru_resize (blockAtomicInputCache vm)" by (simp add: lru_resize_idem)
  then have g: "fst (lru_Get ?c (id q)) = Some ptr"
    using hit by (simp add: lru_Get_def Let_def)
  have "walkAncestors ?vm1 (blockAtomicInputCache vm) (Parent vm b) [] =
          walkAncestors ?vm1 ?c (EVMBlock q) ([] @ pre)"
    by (rule walk_chain) (simp_all add: chainEnd_heap ce unc)
  also have "\<dots> = Some (Return (Some ptr, pre, snd (lru_Get ?c (id q))))"
    using walk_hit[OF s g] by simp
  finally have w: "walkAncestors ?vm1 (blockAtomicInputCache ?vm1) (Parent ?vm1 b) [] =
      Some (Return (Some ptr, pre, snd (lru_Get ?c (id q))))"
    by (simp add: scan_fields_irrelevant)
  let ?vm2 = "?vm1\<lparr>blockAtomicInputCache := snd (lru_Get ?c (id q))\<rparr>"
  have "ptr < length (setHeap ?vm2)" using ptr by simp
  moreover have "list_all (atomicTxKnown ?vm2) (rev pre)"
    unfolding atomicTxKnown_any[of ?vm2 vm] using known by simp
  ultimately obtain vm' where m: "memoizePath (rev pre) ptr ?vm2 = Return vm'"
    and h: "setHeap vm' ! ptr = setHeap ?vm2 ! ptr \<union> pathInputs ?vm2 (rev pre)"
    and f: "sameButScan ?vm2 vm'"
    using memoizePath_heap[of ptr ?vm2 "rev pre"] by blast
  from h[unfolded pathInputs_any[of ?vm2 vm]] ptr
  have h': "setHeap vm' ! ptr = setHeap vm ! ptr \<union> pathInputs vm pre"
    by (simp add: pathInputs_simps nth_append)
  have f': "sameButScan vm vm'"
    using f unfolding sameButScan_def by (cases vm, cases vm') simp
  have "conflictScan vm b atx =
      Some (Return (ImportTx_InputUTXOs atx \<inter> (setHeap vm ! ptr \<union> pathInputs vm pre) \<noteq> {}, vm'))"
    unfolding conflictScan_def newSet_def using w m h' by simp
  with f' show ?thesis by blast
qed

subsection \<open>Verify\<close>

lemma Block_Verify_import:
  assumes "\<not> (ctx_IsBootstrapped (ctx vm) \<and>
              list_ex (\<lambda>gasPrice. gasPrice < MinGasPrice vm) (Transactions (ethBlock b)))"
    and "getAtomicTx vm (ethBlock b) = Some tx"
    and "UnsignedTx tx = ImportTx itx"
    and "Hash (ethBlock b) \<noteq> genesisHash vm"
    and "Parent vm b = EVMBlock parent"
    and "BlockState vm (ethBlock parent) = None"
  shows "Block_Verify vm b =
     (case conflictScan vm b itx of
        None \<Rightarrow> None
      | Some Panic \<Rightarrow> Some Panic
      | Some (Return (True, vm')) \<Rightarrow> Some (Return (Some ErrAtomicInputConflict, vm'))
      | Some (Return (False, vm')) \<Rightarrow> verifyAtomic vm' b tx)"
  using assms by (auto simp: Block_Verify_def asBlock_def)

lemma verifyAtomic_result:
  assumes "InsertChain vm (ethBlock b) \<noteq> Some ErrAtomicInputConflict"
  shows "verifyAtomic vm b tx \<noteq> None \<and>
         returnedError (verifyAtomic vm b tx) \<noteq> Some (Return (Some ErrAtomicInputConflict))"
  using assms
  by (auto simp: verifyAtomic_def insertChain_def returnedError_def
      split: UnsignedTx.splits go.splits option.splits TxError.splits)

lemma Block_Verify_import_cold:
  assumes gate: "\<not> (ctx_IsBootstrapped (ctx vm) \<and>
              list_ex (\<lambda>gasPrice. gasPrice < MinGasPrice vm) (Transactions (ethBlock b)))"
    and atx: "getAtomicTx vm (ethBlock b) = Some tx" "UnsignedTx tx = ImportTx itx"
    and notgen: "Hash (ethBlock b) \<noteq> genesisHash vm"
    and parent: "Parent vm b = EVMBlock parent" "BlockState vm (ethBlock parent) = None"
    and path: "unacceptedPath vm (Parent vm b) path"
    and unc: "uncached (blockAtomicInputCache vm) path"
    and known: "list_all (atomicTxKnown vm) path"
    and ins: "InsertChain vm (ethBlock b) \<noteq> Some ErrAtomicInputConflict"
  shows "Block_Verify vm b \<noteq> None \<and>
         (returnedError (Block_Verify vm b) = Some (Return (Some ErrAtomicInputConflict)) \<longleftrightarrow>
          ImportTx_InputUTXOs itx \<inter> pathInputs vm path \<noteq> {})"
proof -
  from conflictScan_cold[OF path unc known, of itx] obtain vm' where
    scan: "conflictScan vm b itx = Some (Return (ImportTx_InputUTXOs itx \<inter> pathInputs vm path \<noteq> {}, vm'))"
    and same: "sameButScan vm vm'"
    by blast
  note v = Block_Verify_import[OF gate atx notgen parent]
  show ?thesis
  proof (cases "ImportTx_InputUTXOs itx \<inter> pathInputs vm path \<noteq> {}")
    case True
    with scan v have "Block_Verify vm b = Some (Return (Some ErrAtomicInputConflict, vm'))" by simp
    with True show ?thesis by (simp add: returnedError_def)
  next
    case False
    with scan v have e: "Block_Verify vm b = verifyAtomic vm' b tx" by simp
    from ins have "InsertChain vm' (ethBlock b) \<noteq> Some ErrAtomicInputConflict"
      by (simp add: sameButScan_fields[OF same])
    from verifyAtomic_result[OF this, of tx] False e show ?thesis by simp
  qed
qed

lemma verifyAtomic_import_no_panic:
  assumes "UnsignedTx tx = ImportTx itx" and "ImportTx_SemanticVerify vm itx tx \<noteq> Panic"
  shows "verifyAtomic vm b tx \<noteq> Some Panic"
  using assms
  by (auto simp: verifyAtomic_def insertChain_def split: go.splits option.splits TxError.splits)

lemma Block_Verify_import_cold_no_panic:
  assumes gate: "\<not> (ctx_IsBootstrapped (ctx vm) \<and>
              list_ex (\<lambda>gasPrice. gasPrice < MinGasPrice vm) (Transactions (ethBlock b)))"
    and atx: "getAtomicTx vm (ethBlock b) = Some tx" "UnsignedTx tx = ImportTx itx"
    and notgen: "Hash (ethBlock b) \<noteq> genesisHash vm"
    and parent: "Parent vm b = EVMBlock parent" "BlockState vm (ethBlock parent) = None"
    and path: "unacceptedPath vm (Parent vm b) path"
    and unc: "uncached (blockAtomicInputCache vm) path"
    and known: "list_all (atomicTxKnown vm) path"
    and sem: "ImportTx_SemanticVerify vm itx tx \<noteq> Panic"
  shows "Block_Verify vm b \<noteq> Some Panic"
proof -
  from conflictScan_cold[OF path unc known, of itx] obtain vm' where
    scan: "conflictScan vm b itx = Some (Return (ImportTx_InputUTXOs itx \<inter> pathInputs vm path \<noteq> {}, vm'))"
    and same: "sameButScan vm vm'"
    by blast
  note v = Block_Verify_import[OF gate atx notgen parent]
  show ?thesis
  proof (cases "ImportTx_InputUTXOs itx \<inter> pathInputs vm path \<noteq> {}")
    case True
    with scan v have "Block_Verify vm b = Some (Return (Some ErrAtomicInputConflict, vm'))" by simp
    then show ?thesis by simp
  next
    case False
    with scan v have e: "Block_Verify vm b = verifyAtomic vm' b tx" by simp
    from sem have "ImportTx_SemanticVerify vm' itx tx \<noteq> Panic"
      by (simp add: sameButScan_fields[OF same])
    from verifyAtomic_import_no_panic[OF atx(2) this, of b] e show ?thesis by simp
  qed
qed

lemma chain_vm_fields:
  "blocks chain_vm = map_of [(100, blkG), (101, blkA), (102, blkB), (103, blkC), (104, blkD),
                             (105, blkE), (106, blkO), (107, blkP), (108, blkQ)]"
  "blockStatusCache chain_vm = Map.empty"
  "genesisHash chain_vm = 100"
  "blockAtomicInputCache chain_vm = \<lparr>Size = 8, entries = []\<rparr>"
  "setHeap chain_vm = []"
  "ctx_IsBootstrapped (ctx chain_vm) = True"
  "MinGasPrice chain_vm = 470000000000"
  "BlockState chain_vm = (\<lambda>_. None)"
  "Process chain_vm = (\<lambda>_. None)"
  "InsertChain chain_vm = (\<lambda>_. None)"
  "ImportTx_SemanticVerify chain_vm = (\<lambda>_ _. Return None)"
  "ImportTx_Accept chain_vm = (\<lambda>_. None)"
  "acceptedDB chain_vm = Map.empty"
  "acceptedDB_PutError chain_vm = (\<lambda>_ _. None)"
  by (simp_all add: chain_vm_def ex_vm_def ex_ctx_def)

lemma blk_fields:
  "id (blk h p n g a) = h" "Hash (ethBlock (blk h p n g a)) = h" "ParentHash (ethBlock (blk h p n g a)) = p"
  "Number (ethBlock (blk h p n g a)) = n" "Transactions (ethBlock (blk h p n g a)) = g"
  "ExtData (ethBlock (blk h p n g a)) = a"
  by (simp_all add: blk_def)

lemma blk_inject: "blk h p n g a = blk h' p' n' g' a' \<longleftrightarrow> h = h' \<and> p = p' \<and> n = n' \<and> g = g' \<and> a = a'"
  by (auto simp: blk_def)

lemma importTx_fields: "UnsignedTx (importTx ins) = ImportTx \<lparr>ImportedInputs = ins\<rparr>"
  by (simp add: importTx_def)

lemmas blk_defs = blkG_def blkA_def blkB_def blkC_def blkD_def blkE_def blkO_def blkP_def blkQ_def

lemmas chain_eval = chain_vm_fields blk_fields blk_defs blk_inject importTx_fields
  stops_def Block_Status_def getCachedStatus_def Parent_def getBlock_def getAtomicTx_def
  unacceptedPath_def danglingPath_def uncached_def atomicTxKnown_def pathInputs_def blockInputs_def
  InputUTXOs_def ImportTx_InputUTXOs_def

text \<open>
  C1, as the code has it. Let B be a block that is not the genesis block and
  carries an ImportTx, whose ordinary transactions pass the minimum gas price
  gate (or the VM is not bootstrapped) and whose parent's post-state loads. Let
  \<open>path\<close> be the blocks from B's parent back to, but not including, the most
  recent Accepted ancestor (or genesis), all of them in the block map, with
  import or export transactions only and none with a resident entry in the
  ancestor-input cache, and let the chain's \<open>InsertChain\<close> not return
  \<open>errAtomicInputConflict\<close> itself. Then \<open>Verify\<close> ends, returning or
  panicking, and it returns \<open>errAtomicInputConflict\<close> if and only if some id of
  the transaction's \<open>InputUTXOs\<close> is in the union of the \<open>InputUTXOs\<close> over
  \<open>path\<close>. If moreover the import transaction's \<open>SemanticVerify\<close> does not
  panic, \<open>Verify\<close> does not panic: it returns.
\<close>

theorem Verify_conflict_iff_overlap:
  assumes "\<not> (ctx_IsBootstrapped (ctx vm) \<and>
              list_ex (\<lambda>gasPrice. gasPrice < MinGasPrice vm) (Transactions (ethBlock b)))"
    and "getAtomicTx vm (ethBlock b) = Some tx" and "UnsignedTx tx = ImportTx itx"
    and "Hash (ethBlock b) \<noteq> genesisHash vm"
    and "Parent vm b = EVMBlock parent" and "BlockState vm (ethBlock parent) = None"
    and "unacceptedPath vm (Parent vm b) path"
    and "uncached (blockAtomicInputCache vm) path"
    and "list_all (atomicTxKnown vm) path"
    and "InsertChain vm (ethBlock b) \<noteq> Some ErrAtomicInputConflict"
  shows "Block_Verify vm b \<noteq> None \<and>
         (returnedError (Block_Verify vm b) = Some (Return (Some ErrAtomicInputConflict)) \<longleftrightarrow>
          ImportTx_InputUTXOs itx \<inter> pathInputs vm path \<noteq> {}) \<and>
         (ImportTx_SemanticVerify vm itx tx \<noteq> Panic \<longrightarrow> Block_Verify vm b \<noteq> Some Panic)"
proof -
  have a: "Block_Verify vm b \<noteq> None \<and>
         (returnedError (Block_Verify vm b) = Some (Return (Some ErrAtomicInputConflict)) \<longleftrightarrow>
          ImportTx_InputUTXOs itx \<inter> pathInputs vm path \<noteq> {})"
    using assms by (rule Block_Verify_import_cold)
  have b: "Block_Verify vm b \<noteq> Some Panic" if "ImportTx_SemanticVerify vm itx tx \<noteq> Panic"
    using assms(1-9) that by (rule Block_Verify_import_cold_no_panic)
  from a b show ?thesis by blast
qed

text \<open>The theorem on block D of the chain with empty caches: the path is C, B, A,
  and A consumes the UTXO that D imports.\<close>

theorem Verify_conflict_iff_overlap_witness:
  "unacceptedPath chain_vm (Parent chain_vm blkD) [blkC, blkB, blkA] \<and>
   ImportTx_InputUTXOs \<lparr>ImportedInputs = [7]\<rparr> \<inter> pathInputs chain_vm [blkC, blkB, blkA] \<noteq> {} \<and>
   returnedError (Block_Verify chain_vm blkD) = Some (Return (Some ErrAtomicInputConflict)) \<and>
   ImportTx_SemanticVerify chain_vm \<lparr>ImportedInputs = [7]\<rparr> (importTx [7]) \<noteq> Panic \<and>
   Block_Verify chain_vm blkD \<noteq> Some Panic"
proof -
  have s: "ImportTx_SemanticVerify chain_vm \<lparr>ImportedInputs = [7]\<rparr> (importTx [7]) \<noteq> Panic"
    by (simp add: chain_eval)
  have p: "unacceptedPath chain_vm (Parent chain_vm blkD) [blkC, blkB, blkA]"
    by (simp add: chain_eval)
  have o: "ImportTx_InputUTXOs \<lparr>ImportedInputs = [7]\<rparr> \<inter> pathInputs chain_vm [blkC, blkB, blkA] \<noteq> {}"
    by (simp add: chain_eval)
  have "Block_Verify chain_vm blkD \<noteq> None \<and>
         (returnedError (Block_Verify chain_vm blkD) = Some (Return (Some ErrAtomicInputConflict)) \<longleftrightarrow>
          ImportTx_InputUTXOs \<lparr>ImportedInputs = [7]\<rparr> \<inter> pathInputs chain_vm [blkC, blkB, blkA] \<noteq> {}) \<and>
         (ImportTx_SemanticVerify chain_vm \<lparr>ImportedInputs = [7]\<rparr> (importTx [7]) \<noteq> Panic \<longrightarrow>
          Block_Verify chain_vm blkD \<noteq> Some Panic)"
    by (rule Verify_conflict_iff_overlap[where tx = "importTx [7]" and parent = blkC])
       (simp_all add: chain_eval)
  with p o s show ?thesis by blast
qed

text \<open>C1 as stated fails: block E imports the UTXO its parent A consumed, and
  \<open>Verify\<close> returns \<open>errInsufficientGasPrice\<close>, the gate that comes first.\<close>

theorem Verify_gas_gate_counterexample:
  "getAtomicTx chain_vm (ethBlock blkE) = Some (importTx [7]) \<and>
   Hash (ethBlock blkE) \<noteq> genesisHash chain_vm \<and>
   unacceptedPath chain_vm (Parent chain_vm blkE) [blkA] \<and>
   ImportTx_InputUTXOs \<lparr>ImportedInputs = [7]\<rparr> \<inter> pathInputs chain_vm [blkA] \<noteq> {} \<and>
   Block_Verify chain_vm blkE = Some (Return (Some ErrInsufficientGasPrice, chain_vm))"
  by (simp add: chain_eval Block_Verify_def)

text \<open>
  C9, as the code has it. The casts to \<open>*Block\<close> are reached only for a block
  with an atomic transaction that passes the gas price gate. For such a block
  whose parent is not in the block map, \<open>Verify\<close> panics. And for such a block
  with an ImportTx (not genesis, parent in the block map, parent state loaded),
  when the walk over ancestors that are neither Accepted nor genesis and have no
  cache entry ends at a block missing from the block map, \<open>Verify\<close> panics.
  Whether or not the parent is in the block map, a block that passes the gate
  and has no atomic transaction returns what \<open>InsertChain\<close> returns, and a
  block that fails the gate returns \<open>errInsufficientGasPrice\<close>.
\<close>

theorem Verify_missing_parent:
  "(\<not> (ctx_IsBootstrapped (ctx vm) \<and>
        list_ex (\<lambda>gasPrice. gasPrice < MinGasPrice vm) (Transactions (ethBlock b))) \<and>
    getAtomicTx vm (ethBlock b) = Some tx \<and> blocks vm (ParentHash (ethBlock b)) = None \<longrightarrow>
      Block_Verify vm b = Some Panic) \<and>
   (\<not> (ctx_IsBootstrapped (ctx vm) \<and>
        list_ex (\<lambda>gasPrice. gasPrice < MinGasPrice vm) (Transactions (ethBlock b))) \<and>
    getAtomicTx vm (ethBlock b) = Some tx \<and> UnsignedTx tx = ImportTx itx \<and>
    Hash (ethBlock b) \<noteq> genesisHash vm \<and>
    Parent vm b = EVMBlock parent \<and> BlockState vm (ethBlock parent) = None \<and>
    danglingPath vm (Parent vm b) path \<and> uncached (blockAtomicInputCache vm) path \<longrightarrow>
      Block_Verify vm b = Some Panic) \<and>
   (\<not> (ctx_IsBootstrapped (ctx vm) \<and>
        list_ex (\<lambda>gasPrice. gasPrice < MinGasPrice vm) (Transactions (ethBlock b))) \<and>
    getAtomicTx vm (ethBlock b) = None \<longrightarrow>
      Block_Verify vm b = Some (Return (InsertChain vm (ethBlock b), vm))) \<and>
   (ctx_IsBootstrapped (ctx vm) \<and>
    list_ex (\<lambda>gasPrice. gasPrice < MinGasPrice vm) (Transactions (ethBlock b)) \<longrightarrow>
      Block_Verify vm b = Some (Return (Some ErrInsufficientGasPrice, vm)))"
proof (intro conjI impI)
  assume "\<not> (ctx_IsBootstrapped (ctx vm) \<and>
        list_ex (\<lambda>gasPrice. gasPrice < MinGasPrice vm) (Transactions (ethBlock b))) \<and>
    getAtomicTx vm (ethBlock b) = Some tx \<and> blocks vm (ParentHash (ethBlock b)) = None"
  then show "Block_Verify vm b = Some Panic"
    by (simp add: Block_Verify_def Parent_def getBlock_def asBlock_def)
next
  assume "\<not> (ctx_IsBootstrapped (ctx vm) \<and>
        list_ex (\<lambda>gasPrice. gasPrice < MinGasPrice vm) (Transactions (ethBlock b))) \<and>
    getAtomicTx vm (ethBlock b) = None"
  then show "Block_Verify vm b = Some (Return (InsertChain vm (ethBlock b), vm))"
    by (auto simp: Block_Verify_def insertChain_def)
next
  assume "ctx_IsBootstrapped (ctx vm) \<and>
    list_ex (\<lambda>gasPrice. gasPrice < MinGasPrice vm) (Transactions (ethBlock b))"
  then show "Block_Verify vm b = Some (Return (Some ErrInsufficientGasPrice, vm))"
    by (simp add: Block_Verify_def)
next
  assume a: "\<not> (ctx_IsBootstrapped (ctx vm) \<and>
        list_ex (\<lambda>gasPrice. gasPrice < MinGasPrice vm) (Transactions (ethBlock b))) \<and>
    getAtomicTx vm (ethBlock b) = Some tx \<and> UnsignedTx tx = ImportTx itx \<and>
    Hash (ethBlock b) \<noteq> genesisHash vm \<and>
    Parent vm b = EVMBlock parent \<and> BlockState vm (ethBlock parent) = None \<and>
    danglingPath vm (Parent vm b) path \<and> uncached (blockAtomicInputCache vm) path"
  from a have d: "danglingPath vm (Parent vm b) path" and u: "uncached (blockAtomicInputCache vm) path"
    by blast+
  have "conflictScan vm b itx = Some Panic" by (rule conflictScan_dangling[OF d u])
  moreover from a have "Block_Verify vm b =
     (case conflictScan vm b itx of
        None \<Rightarrow> None
      | Some Panic \<Rightarrow> Some Panic
      | Some (Return (True, vm')) \<Rightarrow> Some (Return (Some ErrAtomicInputConflict, vm'))
      | Some (Return (False, vm')) \<Rightarrow> verifyAtomic vm' b tx)"
    by (intro Block_Verify_import) blast+
  ultimately show "Block_Verify vm b = Some Panic" by simp
qed

text \<open>C9 as stated fails: block O has no atomic transaction and a parent that is
  not in the block map, and \<open>Verify\<close> returns what \<open>InsertChain\<close> returns.\<close>

theorem Verify_no_atomic_tx_counterexample:
  "blocks chain_vm (ParentHash (ethBlock blkO)) = None \<and>
   Parent chain_vm blkO = MissingBlock 998 \<and>
   Block_Verify chain_vm blkO = Some (Return (None, chain_vm))"
  by (simp add: chain_eval Block_Verify_def insertChain_def)

theorem Verify_missing_parent_witness:
  "blocks chain_vm (ParentHash (ethBlock blkP)) = None \<and>
   Block_Verify chain_vm blkP = Some Panic \<and>
   danglingPath chain_vm (Parent chain_vm blkQ) [blkP] \<and>
   Block_Verify chain_vm blkQ = Some Panic \<and>
   getAtomicTx chain_vm (ethBlock blkO) = None \<and>
   Block_Verify chain_vm blkO = Some (Return (InsertChain chain_vm (ethBlock blkO), chain_vm)) \<and>
   Block_Verify chain_vm blkE = Some (Return (Some ErrInsufficientGasPrice, chain_vm))"
proof -
  have 3: "\<not> (ctx_IsBootstrapped (ctx chain_vm) \<and>
        list_ex (\<lambda>gasPrice. gasPrice < MinGasPrice chain_vm) (Transactions (ethBlock blkO))) \<and>
    getAtomicTx chain_vm (ethBlock blkO) = None"
    by (simp add: chain_eval)
  have 4: "ctx_IsBootstrapped (ctx chain_vm) \<and>
    list_ex (\<lambda>gasPrice. gasPrice < MinGasPrice chain_vm) (Transactions (ethBlock blkE))"
    by (simp add: chain_eval)
  from Verify_missing_parent[where vm = chain_vm and b = blkO, THEN conjunct2, THEN conjunct2,
      THEN conjunct1, rule_format, OF 3]
  have c: "Block_Verify chain_vm blkO = Some (Return (InsertChain chain_vm (ethBlock blkO), chain_vm))" .
  from Verify_missing_parent[where vm = chain_vm and b = blkE, THEN conjunct2, THEN conjunct2,
      THEN conjunct2, rule_format, OF 4]
  have d: "Block_Verify chain_vm blkE = Some (Return (Some ErrInsufficientGasPrice, chain_vm))" .
  have 1: "\<not> (ctx_IsBootstrapped (ctx chain_vm) \<and>
        list_ex (\<lambda>gasPrice. gasPrice < MinGasPrice chain_vm) (Transactions (ethBlock blkP))) \<and>
    getAtomicTx chain_vm (ethBlock blkP) = Some (importTx [9]) \<and>
    blocks chain_vm (ParentHash (ethBlock blkP)) = None"
    by (simp add: chain_eval)
  have 2: "\<not> (ctx_IsBootstrapped (ctx chain_vm) \<and>
        list_ex (\<lambda>gasPrice. gasPrice < MinGasPrice chain_vm) (Transactions (ethBlock blkQ))) \<and>
    getAtomicTx chain_vm (ethBlock blkQ) = Some (importTx [10]) \<and>
    UnsignedTx (importTx [10]) = ImportTx \<lparr>ImportedInputs = [10]\<rparr> \<and>
    Hash (ethBlock blkQ) \<noteq> genesisHash chain_vm \<and>
    Parent chain_vm blkQ = EVMBlock blkP \<and> BlockState chain_vm (ethBlock blkP) = None \<and>
    danglingPath chain_vm (Parent chain_vm blkQ) [blkP] \<and>
    uncached (blockAtomicInputCache chain_vm) [blkP]"
    by (simp add: chain_eval)
  from Verify_missing_parent[where vm = chain_vm and b = blkP, THEN conjunct1, rule_format, OF 1]
  have a: "Block_Verify chain_vm blkP = Some Panic" .
  from Verify_missing_parent[where vm = chain_vm and b = blkQ, THEN conjunct2, THEN conjunct1,
      rule_format, OF 2]
  have b: "Block_Verify chain_vm blkQ = Some Panic" .
  from 1 2 3 a b c d show ?thesis by blast
qed

subsection \<open>What the cache holds\<close>

lemmas walk_eval = walk_miss walk_genesis walk_hit walk_missing Block_Status_def getCachedStatus_def
  chain_vm_fields blk_fields blk_defs lru_Get_def lru_resize_def Parent_def getBlock_def

lemma memoize_none:
  "getAtomicTx vm (ethBlock p) = None \<Longrightarrow>
   memoizePath (p # ps) inputs vm =
     memoizePath ps inputs
       (vm\<lparr>setHeap := setHeap vm @ [{}],
           blockAtomicInputCache := lru_Put (blockAtomicInputCache vm) (id p) (length (setHeap vm))\<rparr>)"
  by (simp add: newSet_def getAtomicTx_def)

lemma memoize_some:
  "getAtomicTx vm (ethBlock p) = Some atx \<Longrightarrow> InputUTXOs (UnsignedTx atx) = Return ins \<Longrightarrow>
   memoizePath (p # ps) inputs vm =
     memoizePath ps inputs
       (vm\<lparr>setHeap := ((setHeap vm @ [{}])[inputs := (setHeap vm @ [{}]) ! inputs \<union> ins])
                 [length (setHeap vm) :=
                    (setHeap vm @ [{}])[inputs := (setHeap vm @ [{}]) ! inputs \<union> ins] ! length (setHeap vm) \<union>
                    (setHeap vm @ [{}])[inputs := (setHeap vm @ [{}]) ! inputs \<union> ins] ! inputs],
           blockAtomicInputCache := lru_Put (blockAtomicInputCache vm) (id p) (length (setHeap vm))\<rparr>)"
  by (simp add: newSet_def setUnion_def getAtomicTx_def Let_def)

lemmas memo_eval = memoize_none memoize_some memoizePath.simps(1) getAtomicTx_def InputUTXOs_def
  ImportTx_InputUTXOs_def ExportTx_InputUTXOs_def importTx_fields lru_Put_def lru_resize_def
  chain_vm_fields blk_fields blk_defs

lemma scanC:
  "conflictScan chain_vm blkC \<lparr>ImportedInputs = [8]\<rparr> = Some (Return (False, vmC))"
proof -
  let ?vm1 = "chain_vm\<lparr>setHeap := [{}]\<rparr>"
  have w: "walkAncestors ?vm1 \<lparr>Size = 8, entries = []\<rparr> (EVMBlock blkB) [] =
      Some (Return (None, [blkB, blkA], \<lparr>Size = 8, entries = []\<rparr>))"
    by (simp add: walk_eval)
  have m: "memoizePath [blkA, blkB] 0 (?vm1\<lparr>blockAtomicInputCache := \<lparr>Size = 8, entries = []\<rparr>\<rparr>) = Return vmC"
    by (simp add: memo_eval vmC_def numeral_2_eq_2[symmetric] del: memoizePath.simps(2))
  have p: "Parent ?vm1 blkC = EVMBlock blkB"
    by (simp add: Parent_def getBlock_def chain_vm_fields blk_fields blk_defs)
  have h: "ImportTx_InputUTXOs \<lparr>ImportedInputs = [8]\<rparr> \<inter> setHeap vmC ! 0 = {}"
    by (simp add: vmC_def ImportTx_InputUTXOs_def)
  show ?thesis
    unfolding conflictScan_def newSet_def using w m p h by (simp add: chain_vm_fields)
qed

lemma VerifyC: "Block_Verify chain_vm blkC = Some (Return (None, vmC))"
proof -
  have "Block_Verify chain_vm blkC =
     (case conflictScan chain_vm blkC \<lparr>ImportedInputs = [8]\<rparr> of
        None \<Rightarrow> None
      | Some Panic \<Rightarrow> Some Panic
      | Some (Return (True, vm')) \<Rightarrow> Some (Return (Some ErrAtomicInputConflict, vm'))
      | Some (Return (False, vm')) \<Rightarrow> verifyAtomic vm' blkC (importTx [8]))"
    by (rule Block_Verify_import[where parent = blkB]) (simp_all add: chain_eval)
  also have "\<dots> = verifyAtomic vmC blkC (importTx [8])" by (simp add: scanC)
  also have "\<dots> = Some (Return (None, vmC))"
    by (simp add: verifyAtomic_def insertChain_def importTx_fields vmC_def chain_vm_fields)
  finally show ?thesis .
qed

lemma VerifyD_cold: "returnedError (Block_Verify chain_vm blkD) = Some (Return (Some ErrAtomicInputConflict))"
proof -
  have "Block_Verify chain_vm blkD \<noteq> None \<and>
         (returnedError (Block_Verify chain_vm blkD) = Some (Return (Some ErrAtomicInputConflict)) \<longleftrightarrow>
          ImportTx_InputUTXOs \<lparr>ImportedInputs = [7]\<rparr> \<inter> pathInputs chain_vm [blkC, blkB, blkA] \<noteq> {})"
    by (rule Block_Verify_import_cold[where tx = "importTx [7]" and parent = blkC])
       (simp_all add: chain_eval)
  then show ?thesis by (simp add: chain_eval)
qed

lemma vmC_fields:
  "blocks vmC = blocks chain_vm" "blockStatusCache vmC = Map.empty" "genesisHash vmC = 100"
  "blockAtomicInputCache vmC = \<lparr>Size = 8, entries = [(101, 1), (102, 2)]\<rparr>"
  "setHeap vmC = [{7}, {7}, {}]" "ctx vmC = ctx chain_vm" "MinGasPrice vmC = MinGasPrice chain_vm"
  "BlockState vmC = (\<lambda>_. None)" "Process vmC = (\<lambda>_. None)" "InsertChain vmC = (\<lambda>_. None)"
  "ImportTx_SemanticVerify vmC = (\<lambda>_ _. Return None)"
  by (simp_all add: vmC_def chain_vm_fields)

lemma scanD_warm:
  "conflictScan vmC blkD \<lparr>ImportedInputs = [7]\<rparr> = Some (Return (False, vmD))"
proof -
  let ?vm1 = "vmC\<lparr>setHeap := [{7}, {7}, {}, {}]\<rparr>"
  let ?c = "\<lparr>Size = 8, entries = [(101, 1), (102, 2)]\<rparr>"
  have w: "walkAncestors ?vm1 ?c (EVMBlock blkC) [] = Some (Return (Some 2, [blkC], ?c))"
    by (simp add: walk_eval vmC_fields)
  have m: "memoizePath [blkC] 2 (?vm1\<lparr>blockAtomicInputCache := ?c\<rparr>) = Return vmD"
    by (simp add: memo_eval vmC_def vmD_def numeral_2_eq_2[symmetric] del: memoizePath.simps(2))
  have p: "Parent ?vm1 blkD = EVMBlock blkC"
    by (simp add: Parent_def getBlock_def vmC_fields chain_vm_fields blk_fields blk_defs)
  have h: "ImportTx_InputUTXOs \<lparr>ImportedInputs = [7]\<rparr> \<inter> setHeap vmD ! 2 = {}"
    by (simp add: vmD_def ImportTx_InputUTXOs_def)
  show ?thesis
    unfolding conflictScan_def newSet_def using w m p h by (simp add: vmC_fields)
qed

lemma VerifyD_warm: "Block_Verify vmC blkD = Some (Return (None, vmD))"
proof -
  have "Block_Verify vmC blkD =
     (case conflictScan vmC blkD \<lparr>ImportedInputs = [7]\<rparr> of
        None \<Rightarrow> None
      | Some Panic \<Rightarrow> Some Panic
      | Some (Return (True, vm')) \<Rightarrow> Some (Return (Some ErrAtomicInputConflict, vm'))
      | Some (Return (False, vm')) \<Rightarrow> verifyAtomic vm' blkD (importTx [7]))"
    by (rule Block_Verify_import[where parent = blkC]) (simp_all add: vmC_fields chain_eval)
  also have "\<dots> = verifyAtomic vmD blkD (importTx [7])" by (simp add: scanD_warm)
  also have "\<dots> = Some (Return (None, vmD))"
    by (simp add: verifyAtomic_def insertChain_def importTx_fields vmD_def chain_vm_fields)
  finally show ?thesis .
qed

text \<open>
  C2 fails on the code. \<open>Verify\<close> of C on the chain with empty caches succeeds
  and leaves \<open>vmC\<close>. The path walked from C's parent is B, A, and its inputs
  are \<open>{7}\<close>; yet the set cached under B, which has no atomic transaction, is
  empty. With the caches empty \<open>Verify\<close> of D returns
  \<open>errAtomicInputConflict\<close>; in \<open>vmC\<close>, where the walk stops at B's entry, it
  returns no error and leaves \<open>vmD\<close>, in which the set cached under B has
  become \<open>{8}\<close>, the input of B's descendant C.
\<close>

theorem cache_entry_of_block_without_atomic_tx:
  "Block_Verify chain_vm blkC = Some (Return (None, vmC)) \<and>
   unacceptedPath chain_vm (EVMBlock blkB) [blkB, blkA] \<and>
   pathInputs chain_vm [blkB, blkA] = {7} \<and>
   cachedInputs vmC (id blkB) = Some {} \<and>
   returnedError (Block_Verify chain_vm blkD) = Some (Return (Some ErrAtomicInputConflict)) \<and>
   Block_Verify vmC blkD = Some (Return (None, vmD)) \<and>
   cachedInputs vmD (id blkB) = Some {8}"
proof -
  have "unacceptedPath chain_vm (EVMBlock blkB) [blkB, blkA]" by (simp add: chain_eval)
  moreover have "pathInputs chain_vm [blkB, blkA] = {7}" by (simp add: chain_eval)
  moreover have "cachedInputs vmC (id blkB) = Some {}"
    by (simp add: cachedInputs_def vmC_fields blk_fields blk_defs)
  moreover have "cachedInputs vmD (id blkB) = Some {8}"
    by (simp add: cachedInputs_def vmD_def blk_fields blk_defs)
  ultimately show ?thesis using VerifyC VerifyD_cold VerifyD_warm by (intro conjI)
qed

subsection \<open>Accept\<close>

lemma bytesNat_snoc: "bytesNat (bs @ [b]) = 256 * bytesNat bs + unat b"
  by (simp add: bytesNat_def)

lemma unat_byte_mod: "unat (word_of_nat (n mod 256) :: byte) = n mod 256"
  by (simp add: unat_of_nat)

lemma bytesNat_natBytes: "bytesNat (natBytes n) = n"
proof (induction n rule: natBytes.induct)
  case (1 n)
  show ?case
  proof (cases "n = 0")
    case True
    then show ?thesis by (subst natBytes.simps) (simp add: bytesNat_def)
  next
    case False
    with 1 have "bytesNat (natBytes (n div 256)) = n div 256" by simp
    with False show ?thesis
      by (subst natBytes.simps) (simp add: bytesNat_snoc unat_byte_mod)
  qed
qed

lemma natBytes_Nil_iff: "natBytes n = [] \<longleftrightarrow> n = 0"
  by (subst natBytes.simps) simp

lemma natBytes_0: "natBytes 0 = []"
  by (subst natBytes.simps) simp

lemma natBytes_hd: "n \<noteq> 0 \<Longrightarrow> hd (natBytes n) \<noteq> 0"
proof (induction n rule: natBytes.induct)
  case (1 n)
  show ?case
  proof (cases "n div 256 = 0")
    case True
    with "1.prems" have "n < 256" "n mod 256 = n" by (auto simp: div_eq_0_iff)
    then have "unat (word_of_nat (n mod 256) :: byte) = n" using unat_byte_mod[of n] by simp
    with "1.prems" have "(word_of_nat (n mod 256) :: byte) \<noteq> 0" by (metis unat_0)
    moreover have "natBytes n = [word_of_nat (n mod 256)]"
      using True "1.prems" by (subst natBytes.simps) (simp add: natBytes_Nil_iff)
    ultimately show ?thesis by simp
  next
    case False
    with "1.prems" 1 have "hd (natBytes (n div 256)) \<noteq> 0" by simp
    moreover have "natBytes n = natBytes (n div 256) @ [word_of_nat (n mod 256)]"
      using "1.prems" by (subst natBytes.simps) simp
    ultimately show ?thesis using False by (simp add: natBytes_Nil_iff)
  qed
qed

lemma natBytes_length: "n < 256 ^ k \<Longrightarrow> length (natBytes n) \<le> k"
proof (induction k arbitrary: n)
  case 0
  then have "n = 0" by simp
  then show ?case by (simp add: natBytes_0)
next
  case (Suc k)
  show ?case
  proof (cases "n = 0")
    case True
    then show ?thesis by (simp add: natBytes_0)
  next
    case False
    from Suc.prems have "n div 256 < 256 ^ k" by (simp add: less_mult_imp_div_less mult.commute)
    then have "length (natBytes (n div 256)) \<le> k" by (rule Suc.IH)
    with False show ?thesis by (subst natBytes.simps) simp
  qed
qed

lemma length_idBytes: "length (idBytes x) = 32"
  by (simp add: idBytes_def)

lemma Block_Accept_ok_index:
  assumes "fst (Block_Accept vm b) = None"
  shows "acceptedDB (snd (Block_Accept vm b)) (bigBytes (Number (ethBlock b))) = Some (idBytes (id b))"
  using assms
  by (auto simp: Block_Accept_def acceptedDB_Put_def updateStatus_def Let_def getAtomicTx_def
      split: option.splits UnsignedTx.splits)

lemma bigBytes_eq_abs:
  assumes "bigBytes x = bigBytes y"
  shows "\<bar>x\<bar> = \<bar>y\<bar>"
proof -
  from assms have "bytesNat (bigBytes x) = bytesNat (bigBytes y)" by simp
  then have "nat \<bar>x\<bar> = nat \<bar>y\<bar>" by (simp add: bigBytes_def bytesNat_natBytes)
  then show ?thesis by simp
qed

lemma Block_Accept_other_key:
  assumes "\<bar>Number (ethBlock b')\<bar> \<noteq> \<bar>Number (ethBlock b)\<bar>"
  shows "acceptedDB (snd (Block_Accept vm b')) (bigBytes (Number (ethBlock b))) =
         acceptedDB vm (bigBytes (Number (ethBlock b)))"
proof -
  from assms have "bigBytes (Number (ethBlock b')) \<noteq> bigBytes (Number (ethBlock b))"
    by (auto dest: bigBytes_eq_abs)
  then show ?thesis
    by (auto simp: Block_Accept_def acceptedDB_Put_def updateStatus_def Let_def getAtomicTx_def
        split: option.splits UnsignedTx.splits)
qed

lemma acceptAll_other_keys:
  "list_all (\<lambda>b'. \<bar>Number (ethBlock b')\<bar> \<noteq> \<bar>Number (ethBlock b)\<bar>) later \<Longrightarrow>
   acceptedDB (acceptAll vm later) (bigBytes (Number (ethBlock b))) =
   acceptedDB vm (bigBytes (Number (ethBlock b)))"
  by (induction later arbitrary: vm) (simp_all add: Block_Accept_other_key)

text \<open>
  C3, as the code has it. Whenever \<open>Block.Accept\<close> of a block B succeeds, the
  acceptance index of the state it leaves maps the key \<open>Number().Bytes()\<close> to the
  32 bytes of the id of B. The key is the big-endian byte string of the absolute
  value of the block number without leading zero bytes, empty exactly for the
  number zero: it has fewer than 8 bytes for every number below \<open>2^56\<close> in
  absolute value, and for a number below \<open>2^64\<close> in absolute value it encodes
  \<open>Height(B)\<close>. After further calls of \<open>Accept\<close>, on blocks whose numbers all
  differ from B's in absolute value, the index still maps that key to the id of
  B.
\<close>

theorem Accept_writes_acceptance_index:
  assumes "fst (Block_Accept vm b) = None"
  shows "acceptedDB (snd (Block_Accept vm b)) (bigBytes (Number (ethBlock b))) = Some (idBytes (id b)) \<and>
         length (idBytes (id b)) = 32 \<and>
         bytesNat (bigBytes (Number (ethBlock b))) = nat \<bar>Number (ethBlock b)\<bar> \<and>
         (bigBytes (Number (ethBlock b)) = [] \<or> hd (bigBytes (Number (ethBlock b))) \<noteq> 0) \<and>
         (bigBytes (Number (ethBlock b)) = [] \<longleftrightarrow> Number (ethBlock b) = 0) \<and>
         (\<bar>Number (ethBlock b)\<bar> < 2 ^ 56 \<longrightarrow> length (bigBytes (Number (ethBlock b))) < 8) \<and>
         (\<bar>Number (ethBlock b)\<bar> < 2 ^ 64 \<longrightarrow> bytesNat (bigBytes (Number (ethBlock b))) = unat (Height b)) \<and>
         (list_all (\<lambda>b'. \<bar>Number (ethBlock b')\<bar> \<noteq> \<bar>Number (ethBlock b)\<bar>) later \<longrightarrow>
            acceptedDB (acceptAll (snd (Block_Accept vm b)) later) (bigBytes (Number (ethBlock b))) =
              Some (idBytes (id b)))"
proof (intro conjI impI)
  show "bigBytes (Number (ethBlock b)) = [] \<longleftrightarrow> Number (ethBlock b) = 0"
    by (simp add: bigBytes_def natBytes_Nil_iff)
  show "acceptedDB (snd (Block_Accept vm b)) (bigBytes (Number (ethBlock b))) = Some (idBytes (id b))"
    using assms by (rule Block_Accept_ok_index)
  show "length (idBytes (id b)) = 32" by (rule length_idBytes)
  show "bytesNat (bigBytes (Number (ethBlock b))) = nat \<bar>Number (ethBlock b)\<bar>"
    by (simp add: bigBytes_def bytesNat_natBytes)
  show "bigBytes (Number (ethBlock b)) = [] \<or> hd (bigBytes (Number (ethBlock b))) \<noteq> 0"
    using natBytes_hd[of "nat \<bar>Number (ethBlock b)\<bar>"] by (auto simp: bigBytes_def natBytes_Nil_iff)
next
  assume "\<bar>Number (ethBlock b)\<bar> < 2 ^ 56"
  then have "nat \<bar>Number (ethBlock b)\<bar> < 256 ^ 7" by simp
  then have "length (natBytes (nat \<bar>Number (ethBlock b)\<bar>)) \<le> 7" by (rule natBytes_length)
  then show "length (bigBytes (Number (ethBlock b))) < 8" by (simp add: bigBytes_def)
next
  assume a: "\<bar>Number (ethBlock b)\<bar> < 2 ^ 64"
  define m where "m = nat \<bar>Number (ethBlock b)\<bar>"
  from a have "m < 2 ^ 64" by (simp add: m_def)
  then have "unat (word_of_nat m :: uint64) = m" by (simp add: unat_of_nat)
  then show "bytesNat (bigBytes (Number (ethBlock b))) = unat (Height b)"
    unfolding bigBytes_def Height_def m_def[symmetric] by (simp add: bytesNat_natBytes)
next
  assume "list_all (\<lambda>b'. \<bar>Number (ethBlock b')\<bar> \<noteq> \<bar>Number (ethBlock b)\<bar>) later"
  then have "acceptedDB (acceptAll (snd (Block_Accept vm b)) later) (bigBytes (Number (ethBlock b))) =
      acceptedDB (snd (Block_Accept vm b)) (bigBytes (Number (ethBlock b)))"
    by (rule acceptAll_other_keys)
  with assms show "acceptedDB (acceptAll (snd (Block_Accept vm b)) later) (bigBytes (Number (ethBlock b))) =
      Some (idBytes (id b))"
    by (simp add: Block_Accept_ok_index)
qed

lemma natBytes_1: "natBytes (Suc 0) = [1]"
  by (subst natBytes.simps, subst natBytes.simps) simp

lemma AcceptA: "fst (Block_Accept chain_vm blkA) = None"
  by (simp add: Block_Accept_def acceptedDB_Put_def updateStatus_def chain_vm_fields blk_fields blkA_def
      getAtomicTx_def importTx_fields)

lemma AcceptA_db:
  "acceptedDB (snd (Block_Accept chain_vm blkA)) = [[1] \<mapsto> idBytes 101]"
  by (simp add: Block_Accept_def acceptedDB_Put_def updateStatus_def chain_vm_fields blk_fields blkA_def
      getAtomicTx_def importTx_fields bigBytes_def natBytes_1)

text \<open>C3 as stated fails: after the successful \<open>Accept\<close> of block A, of height 1,
  the index has no entry under the 8-byte key; the id is under the one-byte key.\<close>

theorem Accept_index_key_counterexample:
  "fst (Block_Accept chain_vm blkA) = None \<and>
   Height blkA = 1 \<and>
   uint64Bytes (Height blkA) = [0, 0, 0, 0, 0, 0, 0, 1] \<and>
   acceptedDB (snd (Block_Accept chain_vm blkA)) (uint64Bytes (Height blkA)) = None \<and>
   acceptedDB (snd (Block_Accept chain_vm blkA)) [1] = Some (idBytes (id blkA))"
proof -
  have h: "Height blkA = 1" by (simp add: Height_def blkA_def blk_fields)
  have k: "uint64Bytes (1 :: uint64) = [0, 0, 0, 0, 0, 0, 0, 1]"
    by (simp add: uint64Bytes_def upt_rec drop_bit_eq_div)
  have i: "id blkA = 101" by (simp add: blkA_def blk_fields)
  show ?thesis using AcceptA by (simp add: h k AcceptA_db i)
qed

theorem Accept_writes_acceptance_index_witness:
  "fst (Block_Accept chain_vm blkA) = None \<and>
   bigBytes (Number (ethBlock blkA)) = [1] \<and>
   acceptedDB (snd (Block_Accept chain_vm blkA)) [1] = Some (idBytes (id blkA)) \<and>
   length (bigBytes (Number (ethBlock blkA))) < 8 \<and>
   acceptedDB (acceptAll (snd (Block_Accept chain_vm blkA)) [blkB, blkC]) [1] = Some (idBytes (id blkA))"
proof -
  have l: "list_all (\<lambda>b'. \<bar>Number (ethBlock b')\<bar> \<noteq> \<bar>Number (ethBlock blkA)\<bar>) [blkB, blkC]"
    by (simp add: blk_defs blk_fields)
  have n: "bigBytes (Number (ethBlock blkA)) = [1]"
    by (simp add: blkA_def blk_fields bigBytes_def natBytes_1)
  have s: "\<bar>Number (ethBlock blkA)\<bar> < 2 ^ 56" by (simp add: blkA_def blk_fields)
  note T = Accept_writes_acceptance_index[OF AcceptA]
  from T[THEN conjunct1] have 1: "acceptedDB (snd (Block_Accept chain_vm blkA)) [1] = Some (idBytes (id blkA))"
    by (simp add: n)
  from T[THEN conjunct2, THEN conjunct2, THEN conjunct2, THEN conjunct2, THEN conjunct2, THEN conjunct1,
      rule_format, OF s]
  have 2: "length (bigBytes (Number (ethBlock blkA))) < 8" .
  from T[THEN conjunct2, THEN conjunct2, THEN conjunct2, THEN conjunct2, THEN conjunct2, THEN conjunct2,
      THEN conjunct2, rule_format, OF l]
  have 3: "acceptedDB (acceptAll (snd (Block_Accept chain_vm blkA)) [blkB, blkC]) [1] = Some (idBytes (id blkA))"
    by (simp add: n)
  from AcceptA n 1 2 3 show ?thesis by (intro conjI)
qed

text \<open>
  C10. After \<open>Block.Accept\<close> the status cache reports the block as Accepted,
  whatever the call returns. When the \<open>Put\<close> into the acceptance index fails,
  \<open>Accept\<close> returns its error, and the state left is the one with the status
  already set and the index untouched. When the \<open>Put\<close> succeeds and the atomic
  transaction's \<open>Accept\<close> fails, \<open>Accept\<close> returns that error, with the index
  already written.
\<close>

theorem Accept_status_before_writes:
  "getCachedStatus (snd (Block_Accept vm b)) (id b) = Accepted \<and>
   (acceptedDB_PutError vm (bigBytes (Number (ethBlock b))) (idBytes (id b)) = Some e \<longrightarrow>
      Block_Accept vm b = (Some e, updateStatus vm (id b) Accepted) \<and>
      acceptedDB (snd (Block_Accept vm b)) = acceptedDB vm) \<and>
   (acceptedDB_PutError vm (bigBytes (Number (ethBlock b))) (idBytes (id b)) = None \<and>
    getAtomicTx vm (ethBlock b) = Some tx \<and> atomicAccept vm (UnsignedTx tx) = Some e \<longrightarrow>
      fst (Block_Accept vm b) = Some e \<and>
      acceptedDB (snd (Block_Accept vm b)) (bigBytes (Number (ethBlock b))) = Some (idBytes (id b)))"
  by (auto simp: Block_Accept_def acceptedDB_Put_def updateStatus_def getCachedStatus_def Let_def
      getAtomicTx_def atomicAccept_def split: option.splits UnsignedTx.splits)

theorem Accept_status_before_writes_witness:
  "getCachedStatus failingDB_vm (id blkA) = Unknown \<and>
   fst (Block_Accept failingDB_vm blkA) = Some (ErrExternal ''closed'') \<and>
   getCachedStatus (snd (Block_Accept failingDB_vm blkA)) (id blkA) = Accepted \<and>
   fst (Block_Accept failingSM_vm blkA) = Some (ErrExternal ''shared memory'') \<and>
   getCachedStatus (snd (Block_Accept failingSM_vm blkA)) (id blkA) = Accepted"
proof -
  have u: "getCachedStatus failingDB_vm (id blkA) = Unknown"
    by (simp add: getCachedStatus_def failingDB_vm_def chain_vm_fields)
  have d: "acceptedDB_PutError failingDB_vm (bigBytes (Number (ethBlock blkA))) (idBytes (id blkA)) =
      Some (ErrExternal ''closed'')"
    by (simp add: failingDB_vm_def)
  have m: "acceptedDB_PutError failingSM_vm (bigBytes (Number (ethBlock blkA))) (idBytes (id blkA)) = None \<and>
    getAtomicTx failingSM_vm (ethBlock blkA) = Some (importTx [7]) \<and>
    atomicAccept failingSM_vm (UnsignedTx (importTx [7])) = Some (ErrExternal ''shared memory'')"
    by (simp add: failingSM_vm_def chain_vm_fields getAtomicTx_def blkA_def blk_fields atomicAccept_def
        importTx_fields)
  note D = Accept_status_before_writes[where vm = failingDB_vm and b = blkA]
  note M = Accept_status_before_writes[where vm = failingSM_vm and b = blkA]
  from D[THEN conjunct2, THEN conjunct1, rule_format, OF d]
  have 1: "fst (Block_Accept failingDB_vm blkA) = Some (ErrExternal ''closed'')" by simp
  from M[THEN conjunct2, THEN conjunct2, rule_format, OF m]
  have 2: "fst (Block_Accept failingSM_vm blkA) = Some (ErrExternal ''shared memory'')" by simp
  from u 1 D[THEN conjunct1] 2 M[THEN conjunct1] show ?thesis by (intro conjI)
qed

end
